theory Spec2Isabelle
  imports Main
begin

section \<open>Statuses and tablet state\<close>

text \<open>
  The error codes of \<^verbatim>\<open>common/status.h\<close> that \<^verbatim>\<open>be/src/olap/base_tablet.cpp\<close>
  produces or tests for. \<open>IO_ERROR\<close> stands for any error of the segment layer that the
  code only propagates, \<open>FATAL\<close> for the end of the process by a failed \<^verbatim>\<open>CHECK\<close> or an
  exception that nothing catches.
\<close>

datatype ErrorCode =
    KEY_NOT_FOUND
  | KEY_ALREADY_EXISTS
  | META_INVALID_ARGUMENT
  | INTERNAL_ERROR
  | MEM_LIMIT_EXCEEDED
  | NOT_IMPLEMENTED_ERROR
  | CAPTURE_ROWSET_ERROR
  | NOT_FOUND
  | IO_ERROR
  | FATAL

datatype Status = OK | Error ErrorCode

text \<open>
  Modelled from the spec: the enum \<^verbatim>\<open>TabletState\<close> is declared outside the source
  at hand; the data model lists the states \<open>RUNNING\<close>, \<open>NOT_READY\<close>, \<open>SHUTDOWN\<close>, and
  the code names \<^verbatim>\<open>TABLET_NOTREADY\<close> and \<^verbatim>\<open>TABLET_SHUTDOWN\<close>.
\<close>

datatype TabletState = TABLET_RUNNING | TABLET_NOTREADY | TABLET_SHUTDOWN

section \<open>Compaction scheduler: the per-round task budget\<close>

record CompactionConfig =
  budget_ceiling :: nat
  budget_floor :: nat
  queue_high_water :: nat

text \<open>
  Modelled from the spec: the producer loop
  \<^verbatim>\<open>StorageEngine::_compaction_tasks_producer_callback\<close> is not part of the source at hand
  (only its test \<^verbatim>\<open>be/test/olap/compaction_task_test.cpp\<close> is). The rule is the one of the
  component design: an empty queue doubles the budget, bounded at the configured ceiling;
  a queue depth at or above the configured high-water mark halves it, bounded at the
  configured floor; otherwise the budget holds.
\<close>

definition adjust_compaction_num_per_round :: "CompactionConfig \<Rightarrow> nat \<Rightarrow> nat \<Rightarrow> nat" where
  "adjust_compaction_num_per_round cfg compaction_num_per_round queue_size =
     (if queue_size = 0 then min (compaction_num_per_round * 2) (budget_ceiling cfg)
      else if queue_high_water cfg \<le> queue_size
        then max (compaction_num_per_round div 2) (budget_floor cfg)
      else compaction_num_per_round)"

section \<open>The versioned delete bitmap\<close>

type_synonym RowsetId = nat
type_synonym SegmentId = nat
type_synonym rowid = nat

text \<open>
  Segment ids and row ids are \<^verbatim>\<open>uint32_t\<close>. The version of a rowset and every version
  that the tablet code computes is an \<^verbatim>\<open>int64_t\<close>, an integer here (the code computes
  \<^verbatim>\<open>version - 1\<close> and \<^verbatim>\<open>end_version + 1\<close>, which stay in range for the versions of a
  tablet). The version in a key of the delete bitmap is a \<^verbatim>\<open>uint64_t\<close>
  (\<^verbatim>\<open>calc_compaction_output_rowset_delete_bitmap\<close> takes its versions as such, and the
  code writes \<^verbatim>\<open>UINT64_MAX\<close> into a key), a natural number here; \<open>to_uint64\<close> is the
  conversion of an \<^verbatim>\<open>int64_t\<close> that is written into a key. The limits that the code
  writes as bounds of a key range are constants.
\<close>

type_synonym Version = int
type_synonym BitmapVersion = nat

definition to_uint64 :: "int \<Rightarrow> nat" where
  "to_uint64 v = nat (v mod 2 ^ 64)"

text \<open>
  The value of an expression of type \<^verbatim>\<open>size_t\<close> (64 bits) whose operands give the integer
  \<open>n\<close>: a difference below 0 wraps around.
\<close>

definition size_t :: "int \<Rightarrow> nat" where
  "size_t n = nat (n mod 2 ^ 64)"

definition UINT32_MAX :: nat where
  "UINT32_MAX = 4294967295"

definition INT64_MAX :: nat where
  "INT64_MAX = 9223372036854775807"

record RowLocation =
  rowset_id :: RowsetId
  segment_id :: SegmentId
  row_id :: rowid

type_synonym BitmapKey = "RowsetId \<times> SegmentId \<times> BitmapVersion"

text \<open>
  Modelled from the spec: the class \<^verbatim>\<open>DeleteBitmap\<close> (\<^verbatim>\<open>olap/tablet_meta.h\<close>) is not part
  of the source at hand. By the data model it is a mapping from (rowset id, segment id,
  version) to a bitmap of row ordinals, with keys ordered lexicographically. It is kept
  here as the list of the entries of that ordered map; a bitmap is the ascending list of
  its members.
\<close>

type_synonym DeleteBitmap = "(BitmapKey \<times> rowid list) list"

definition key_less :: "BitmapKey \<Rightarrow> BitmapKey \<Rightarrow> bool" where
  "key_less a b =
     (case a of (r1, s1, v1) \<Rightarrow> case b of (r2, s2, v2) \<Rightarrow>
        r1 < r2 \<or> (r1 = r2 \<and> (s1 < s2 \<or> (s1 = s2 \<and> v1 < v2))))"

definition key_le :: "BitmapKey \<Rightarrow> BitmapKey \<Rightarrow> bool" where
  "key_le a b = (a = b \<or> key_less a b)"

text \<open>
  Modelled from the spec: the sentinel version, the reserved segment id and the sentinel
  row mark. The code comments on the temporary version ("just set 0 as a unified temporary
  version number"); the reserved pair lies outside the ids that segments and rows of the
  modelled rowsets use.
\<close>

definition TEMP_VERSION_COMMON :: BitmapVersion where
  "TEMP_VERSION_COMMON = 0"

definition INVALID_SEGMENT_ID :: SegmentId where
  "INVALID_SEGMENT_ID = UINT32_MAX - 1"

definition ROWSET_SENTINEL_MARK :: rowid where
  "ROWSET_SENTINEL_MARK = UINT32_MAX - 1"

text \<open>Modelled from the spec: \<open>add(key, row_id)\<close>.\<close>

fun rows_add :: "rowid \<Rightarrow> rowid list \<Rightarrow> rowid list" where
  "rows_add r [] = [r]"
| "rows_add r (x # xs) =
     (if r = x then x # xs else if r < x then r # x # xs else x # rows_add r xs)"

fun add :: "BitmapKey \<Rightarrow> rowid \<Rightarrow> DeleteBitmap \<Rightarrow> DeleteBitmap" where
  "add k r [] = [(k, [r])]"
| "add k r ((k', rows) # bm) =
     (if k = k' then (k', rows_add r rows) # bm
      else if key_less k k' then (k, [r]) # (k', rows) # bm
      else (k', rows) # add k r bm)"

text \<open>
  Modelled from the spec: \<open>contains(key, row_id)\<close>, and the presence of a key in the
  underlying map (\<^verbatim>\<open>delete_bitmap.contains(key)\<close>).
\<close>

definition contains :: "DeleteBitmap \<Rightarrow> BitmapKey \<Rightarrow> rowid \<Rightarrow> bool" where
  "contains bm k r = list_ex (\<lambda>e. fst e = k \<and> r \<in> set (snd e)) bm"

definition contains_key :: "DeleteBitmap \<Rightarrow> BitmapKey \<Rightarrow> bool" where
  "contains_key bm k = list_ex (\<lambda>e. fst e = k) bm"

text \<open>
  Modelled from the spec: \<open>get_agg(key, up_to_version)\<close> aggregates all versions up to
  the given one for a segment; \<^verbatim>\<open>contains_agg_without_cache\<close> asks whether a row is in that
  aggregate.
\<close>

definition contains_agg_without_cache :: "DeleteBitmap \<Rightarrow> BitmapKey \<Rightarrow> rowid \<Rightarrow> bool" where
  "contains_agg_without_cache bm k r =
     (case k of (rs, seg, version) \<Rightarrow>
        list_ex (\<lambda>e. case fst e of (rs', seg', v') \<Rightarrow>
                   rs' = rs \<and> seg' = seg \<and> v' \<le> version \<and> r \<in> set (snd e)) bm)"

text \<open>
  Modelled from the spec: \<open>remove(range)\<close> and \<open>subset(lo_key, hi_key)\<close>, on the keys from
  the lower one up to the upper one. The spec does not say whether the upper key belongs
  to the range; the source at hand does. \<^verbatim>\<open>agg_delete_bitmap_for_stale_rowsets\<close> stores the
  aggregate of the versions of a segment at the key \<^verbatim>\<open>end_key\<close> and records the range
  \<^verbatim>\<open>(start_key, end_key)\<close> for removal, and \<^verbatim>\<open>check_agg_delete_bitmap_for_stale_rowsets\<close>
  expects the bitmap to keep afterwards the versions that are end versions of rowsets: the
  removal keeps the entry at the upper key. So a range holds the keys from the lower key
  up to, and without, the upper key.
\<close>

definition in_range :: "BitmapKey \<Rightarrow> BitmapKey \<Rightarrow> BitmapKey \<Rightarrow> bool" where
  "in_range lo hi k = (key_le lo k \<and> key_less k hi)"

definition remove :: "BitmapKey \<Rightarrow> BitmapKey \<Rightarrow> DeleteBitmap \<Rightarrow> DeleteBitmap" where
  "remove lo hi bm = filter (\<lambda>e. \<not> in_range lo hi (fst e)) bm"

definition subset :: "BitmapKey \<Rightarrow> BitmapKey \<Rightarrow> DeleteBitmap \<Rightarrow> DeleteBitmap" where
  "subset lo hi bm = filter (\<lambda>e. in_range lo hi (fst e)) bm"

section \<open>Sets of rowset ids\<close>

text \<open>
  A \<^verbatim>\<open>RowsetIdUnorderedSet\<close> is the list of its (distinct) members in the order in which a
  loop over the set meets them.
\<close>

type_synonym RowsetIdUnorderedSet = "RowsetId list"

definition set_insert :: "'a \<Rightarrow> 'a list \<Rightarrow> 'a list" where
  "set_insert x xs = (if x \<in> set xs then xs else xs @ [x])"

text \<open>
  \<^verbatim>\<open>BaseTablet::_rowset_ids_difference\<close>: both results are inserted into the sets that the
  caller passes.
\<close>

definition rowset_ids_difference ::
  "RowsetIdUnorderedSet \<Rightarrow> RowsetIdUnorderedSet \<Rightarrow> RowsetIdUnorderedSet \<Rightarrow> RowsetIdUnorderedSet
     \<Rightarrow> RowsetIdUnorderedSet \<times> RowsetIdUnorderedSet" where
  "rowset_ids_difference cur pre to_add to_del =
     (foldl (\<lambda>acc id. if id \<notin> set pre then set_insert id acc else acc) to_add cur,
      foldl (\<lambda>acc id. if id \<notin> set cur then set_insert id acc else acc) to_del pre)"

text \<open>\<^verbatim>\<open>BaseTablet::add_sentinel_mark_to_delete_bitmap\<close>.\<close>

definition add_sentinel_mark_to_delete_bitmap ::
  "DeleteBitmap \<Rightarrow> RowsetIdUnorderedSet \<Rightarrow> DeleteBitmap" where
  "add_sentinel_mark_to_delete_bitmap delete_bitmap rowsetids =
     foldl (\<lambda>bm rowsetid.
              add (rowsetid, INVALID_SEGMENT_ID, TEMP_VERSION_COMMON) ROWSET_SENTINEL_MARK bm)
           delete_bitmap rowsetids"

text \<open>
  \<^verbatim>\<open>BaseTablet::check_delete_bitmap_correctness\<close>. The JSON report of the failing case is
  only logged; \<^verbatim>\<open>DCHECK(false)\<close> is empty in a release build.
\<close>

definition check_delete_bitmap_correctness ::
  "DeleteBitmap \<Rightarrow> RowsetIdUnorderedSet \<Rightarrow> Status" where
  "check_delete_bitmap_correctness delete_bitmap rowset_ids =
     (let missing_ids =
            foldl (\<lambda>acc rowsetid.
                     if \<not> contains_key delete_bitmap
                            (rowsetid, INVALID_SEGMENT_ID, TEMP_VERSION_COMMON)
                     then set_insert rowsetid acc else acc)
                  [] rowset_ids
      in if missing_ids \<noteq> [] then Error INTERNAL_ERROR else OK)"

section \<open>Schemas, rowsets and the tablet\<close>

type_synonym key = string

datatype field = FNull | FInt int | FStr string

text \<open>
  The parts of \<^verbatim>\<open>TabletColumn\<close> and \<^verbatim>\<open>TabletSchema\<close> that the code reads. \<open>type_default\<close>
  is the value of \<^verbatim>\<open>get_vec_type()->get_default()\<close>; \<open>column s i\<close> is \<^verbatim>\<open>s.column(i)\<close>,
  which the code only calls with the index of an existing column.
\<close>

record TabletColumn =
  col_name :: string
  col_length :: nat
  has_default_value :: bool
  is_nullable :: bool
  is_seqeunce_col :: bool
  type_default :: field

record TabletSchema =
  columns :: "TabletColumn list"
  has_sequence_col :: bool
  sequence_col_idx :: nat
  cluster_key_uids :: "nat list"

definition column :: "TabletSchema \<Rightarrow> nat \<Rightarrow> TabletColumn" where
  "column s i = columns s ! i"

record TabletMeta =
  tablet_state :: TabletState
  tablet_schema :: TabletSchema
  delete_bitmap :: DeleteBitmap

text \<open>\<^verbatim>\<open>BaseTablet::set_tablet_state\<close>: the status returned and the tablet meta afterwards.\<close>

definition set_tablet_state :: "TabletMeta \<Rightarrow> TabletState \<Rightarrow> Status \<times> TabletMeta" where
  "set_tablet_state meta state =
     (if tablet_state meta = TABLET_SHUTDOWN \<and> state \<noteq> TABLET_SHUTDOWN
      then (Error META_INVALID_ARGUMENT, meta)
      else (OK, meta\<lparr>tablet_state := state\<rparr>))"

record KeyBoundsPB =
  min_key :: key
  max_key :: key

record Rowset =
  rs_rowset_id :: RowsetId
  start_version :: Version
  end_version :: Version
  num_segments :: nat
  segments_key_bounds :: "KeyBoundsPB list"
  is_segments_key_bounds_truncated :: bool
  produced_by_compaction :: bool

text \<open>
  The collaborators of the tablet outside the source at hand, taken as parameters: the key
  range check of \<^verbatim>\<open>util/key_util.h\<close>, the segment loader, the lookup of a key in the primary
  key index of one segment (status and location found), the key coder of row ids, reading a
  key back by row id, the length of the row id suffix of a key, and the configuration flag
  of the correctness check.
\<close>

record SegmentLayer =
  key_is_not_in_segment :: "key \<Rightarrow> KeyBoundsPB \<Rightarrow> bool \<Rightarrow> bool"
  load_segments :: "RowsetId \<Rightarrow> Status"
  segment_lookup_row_key :: "RowsetId \<Rightarrow> SegmentId \<Rightarrow> key \<Rightarrow> bool \<Rightarrow> bool \<Rightarrow> Status \<times> RowLocation"
  decode_ascending :: "string \<Rightarrow> Status \<times> rowid"
  read_key_by_rowid :: "RowsetId \<Rightarrow> SegmentId \<Rightarrow> rowid \<Rightarrow> Status \<times> key"
  ROW_ID_LENGTH :: nat
  enable_merge_on_write_correctness_check :: bool

section \<open>Primary key lookup\<close>

text \<open>
  The result of the loop of \<^verbatim>\<open>lookup_row_key\<close> over the picked segments of one rowset:
  the function returns (a status, and the location when the key was found), or the loop
  ends (at its end or by \<^verbatim>\<open>break\<close>) and the next rowset is tried.
\<close>

datatype scan_result = Returned Status "RowLocation option" | NextRowset

fun scan_picked_segments ::
  "SegmentLayer \<Rightarrow> TabletSchema \<Rightarrow> DeleteBitmap \<Rightarrow> Rowset \<Rightarrow> key \<Rightarrow> bool \<Rightarrow> bool \<Rightarrow> Version
     \<Rightarrow> SegmentId list \<Rightarrow> scan_result" where
  "scan_picked_segments env schema tablet_delete_bitmap rs encoded_key with_seq_col with_rowid
       version [] = NextRowset"
| "scan_picked_segments env schema tablet_delete_bitmap rs encoded_key with_seq_col with_rowid
       version (sid # picked) =
     (case segment_lookup_row_key env (rs_rowset_id rs) sid encoded_key with_seq_col with_rowid
      of (s, loc) \<Rightarrow>
        if s = Error KEY_NOT_FOUND then
          scan_picked_segments env schema tablet_delete_bitmap rs encoded_key with_seq_col
            with_rowid version picked
        else if s \<noteq> OK \<and> s \<noteq> Error KEY_ALREADY_EXISTS then Returned s None
        else if s = OK \<and>
                contains_agg_without_cache tablet_delete_bitmap
                  (rowset_id loc, segment_id loc, to_uint64 version) (row_id loc) then
          (if has_sequence_col schema then
             scan_picked_segments env schema tablet_delete_bitmap rs encoded_key with_seq_col
               with_rowid version picked
           else NextRowset)
        else Returned s (Some loc))"

text \<open>
  The segments of a rowset that the key range check does not exclude, from the highest id
  down. The code reads \<^verbatim>\<open>segments_key_bounds[j]\<close> for every \<open>j\<close> below \<open>num_segments\<close>
  (\<^verbatim>\<open>DCHECK_EQ(segments_key_bounds.size(), num_segments)\<close>).
\<close>

definition picked_segments :: "SegmentLayer \<Rightarrow> key \<Rightarrow> Rowset \<Rightarrow> SegmentId list" where
  "picked_segments env key_without_seq rs =
     filter (\<lambda>j. \<not> key_is_not_in_segment env key_without_seq (segments_key_bounds rs ! j)
                       (is_segments_key_bounds_truncated rs))
            (rev [0..<num_segments rs])"

text \<open>
  The loop over the candidate rowsets, from index \<open>i\<close> on. \<open>segment_caches\<close> tells which
  entries of the vector of cache handles are set. The result is the status, the location
  and the rowset written through the out-parameters (when the key was found), and the
  cache handles.
\<close>

fun lookup_in_rowsets ::
  "SegmentLayer \<Rightarrow> TabletSchema \<Rightarrow> DeleteBitmap \<Rightarrow> key \<Rightarrow> key \<Rightarrow> bool \<Rightarrow> bool \<Rightarrow> Version
     \<Rightarrow> nat \<Rightarrow> Rowset list \<Rightarrow> (nat \<Rightarrow> bool)
     \<Rightarrow> Status \<times> RowLocation option \<times> Rowset option \<times> (nat \<Rightarrow> bool)" where
  "lookup_in_rowsets env schema tablet_delete_bitmap encoded_key key_without_seq with_seq_col
       with_rowid version i [] segment_caches =
     (Error KEY_NOT_FOUND, None, None, segment_caches)"
| "lookup_in_rowsets env schema tablet_delete_bitmap encoded_key key_without_seq with_seq_col
       with_rowid version i (rs # rowsets) segment_caches =
     (let picked = picked_segments env key_without_seq rs in
      if picked = [] then
        lookup_in_rowsets env schema tablet_delete_bitmap encoded_key key_without_seq
          with_seq_col with_rowid version (i + 1) rowsets segment_caches
      else if \<not> segment_caches i \<and> load_segments env (rs_rowset_id rs) \<noteq> OK then
        (load_segments env (rs_rowset_id rs), None, None, segment_caches(i := True))
      else
        (case scan_picked_segments env schema tablet_delete_bitmap rs encoded_key with_seq_col
                with_rowid version picked of
           Returned s None \<Rightarrow> (s, None, None, segment_caches(i := True))
         | Returned s (Some loc) \<Rightarrow> (s, Some loc, Some rs, segment_caches(i := True))
         | NextRowset \<Rightarrow>
             lookup_in_rowsets env schema tablet_delete_bitmap encoded_key key_without_seq
               with_seq_col with_rowid version (i + 1) rowsets (segment_caches(i := True))))"

text \<open>
  The key without its sequence and row id suffixes, as \<^verbatim>\<open>lookup_row_key\<close> computes it:
  \<^verbatim>\<open>Slice(data, size - seq_col_length - rowid_length)\<close>, a subtraction of \<^verbatim>\<open>size_t\<close>. For
  a key shorter than the two suffixes the size wraps around and the slice reaches past the
  bytes of the key, of which the model keeps those of the key.
\<close>

definition key_without_seq :: "SegmentLayer \<Rightarrow> TabletSchema \<Rightarrow> bool \<Rightarrow> bool \<Rightarrow> key \<Rightarrow> key" where
  "key_without_seq env schema with_seq_col with_rowid encoded_key =
     (let seq_col_length =
            (if has_sequence_col schema \<and> with_seq_col
             then col_length (column schema (sequence_col_idx schema)) + 1 else 0);
          rowid_length =
            (if with_rowid \<and> cluster_key_uids schema \<noteq> [] then ROW_ID_LENGTH env else 0)
      in take (size_t (int (length encoded_key) - int seq_col_length - int rowid_length))
           encoded_key)"

text \<open>
  \<^verbatim>\<open>BaseTablet::lookup_row_key\<close>. \<open>latest_schema\<close> and \<open>delete_bitmap_arg\<close> are the pointer
  arguments that may be null.
\<close>

definition lookup_row_key ::
  "SegmentLayer \<Rightarrow> TabletMeta \<Rightarrow> key \<Rightarrow> TabletSchema option \<Rightarrow> bool \<Rightarrow> Rowset list \<Rightarrow> Version
     \<Rightarrow> (nat \<Rightarrow> bool) \<Rightarrow> bool \<Rightarrow> DeleteBitmap option
     \<Rightarrow> Status \<times> RowLocation option \<times> Rowset option \<times> (nat \<Rightarrow> bool)" where
  "lookup_row_key env meta encoded_key latest_schema with_seq_col specified_rowsets
       version segment_caches with_rowid delete_bitmap_arg =
     (let schema = (case latest_schema of None \<Rightarrow> tablet_schema meta | Some s \<Rightarrow> s);
          tablet_delete_bitmap =
            (case delete_bitmap_arg of None \<Rightarrow> delete_bitmap meta | Some bm \<Rightarrow> bm)
      in lookup_in_rowsets env schema tablet_delete_bitmap encoded_key
           (key_without_seq env schema with_seq_col with_rowid encoded_key)
           with_seq_col with_rowid version 0 specified_rowsets segment_caches)"

section \<open>Vocabulary of the lookup properties\<close>

text \<open>
  What the segment-level lookup says about one segment of a candidate rowset: a live
  occurrence is a hit that the delete bitmap aggregated up to the version does not cover
  (a segment-level \<open>KEY_ALREADY_EXISTS\<close> is returned as found without asking the bitmap);
  a deleted occurrence is a hit that the bitmap covers; a failure is any status other than
  OK, \<open>KEY_NOT_FOUND\<close> and \<open>KEY_ALREADY_EXISTS\<close>.
\<close>

definition live_occurrence ::
  "SegmentLayer \<Rightarrow> DeleteBitmap \<Rightarrow> key \<Rightarrow> bool \<Rightarrow> bool \<Rightarrow> Version \<Rightarrow> Rowset \<Rightarrow> SegmentId \<Rightarrow> bool"
  where
  "live_occurrence env bm encoded_key with_seq_col with_rowid version rs sid =
     (case segment_lookup_row_key env (rs_rowset_id rs) sid encoded_key with_seq_col with_rowid
      of (s, loc) \<Rightarrow>
        s = Error KEY_ALREADY_EXISTS \<or>
        (s = OK \<and> \<not> contains_agg_without_cache bm
                        (rowset_id loc, segment_id loc, to_uint64 version) (row_id loc)))"

definition deleted_occurrence ::
  "SegmentLayer \<Rightarrow> DeleteBitmap \<Rightarrow> key \<Rightarrow> bool \<Rightarrow> bool \<Rightarrow> Version \<Rightarrow> Rowset \<Rightarrow> SegmentId \<Rightarrow> bool"
  where
  "deleted_occurrence env bm encoded_key with_seq_col with_rowid version rs sid =
     (case segment_lookup_row_key env (rs_rowset_id rs) sid encoded_key with_seq_col with_rowid
      of (s, loc) \<Rightarrow>
        s = OK \<and> contains_agg_without_cache bm
                    (rowset_id loc, segment_id loc, to_uint64 version) (row_id loc))"

definition lookup_failure ::
  "SegmentLayer \<Rightarrow> key \<Rightarrow> bool \<Rightarrow> bool \<Rightarrow> Rowset \<Rightarrow> SegmentId \<Rightarrow> bool" where
  "lookup_failure env encoded_key with_seq_col with_rowid rs sid =
     (case segment_lookup_row_key env (rs_rowset_id rs) sid encoded_key with_seq_col with_rowid
      of (s, loc) \<Rightarrow> s \<noteq> OK \<and> s \<noteq> Error KEY_NOT_FOUND \<and> s \<noteq> Error KEY_ALREADY_EXISTS)"

definition absent_occurrence ::
  "SegmentLayer \<Rightarrow> key \<Rightarrow> bool \<Rightarrow> bool \<Rightarrow> Rowset \<Rightarrow> SegmentId \<Rightarrow> bool" where
  "absent_occurrence env encoded_key with_seq_col with_rowid rs sid =
     (fst (segment_lookup_row_key env (rs_rowset_id rs) sid encoded_key with_seq_col with_rowid)
        = Error KEY_NOT_FOUND)"

text \<open>
  A candidate segment of a rowset for a key (given without its suffixes): a segment of
  the rowset that the key range check does not exclude.
\<close>

definition candidate :: "SegmentLayer \<Rightarrow> key \<Rightarrow> Rowset \<Rightarrow> SegmentId \<Rightarrow> bool" where
  "candidate env probe_key rs j =
     (j < num_segments rs \<and>
      \<not> key_is_not_in_segment env probe_key (segments_key_bounds rs ! j)
            (is_segments_key_bounds_truncated rs))"

text \<open>
  The scan of a rowset goes past a segment when the segment does not hold the key, and
  also, for a schema with a sequence column, when it holds a deleted occurrence.
\<close>

definition passed_over ::
  "SegmentLayer \<Rightarrow> TabletSchema \<Rightarrow> DeleteBitmap \<Rightarrow> key \<Rightarrow> bool \<Rightarrow> bool \<Rightarrow> Version \<Rightarrow> Rowset
     \<Rightarrow> SegmentId \<Rightarrow> bool" where
  "passed_over env schema bm encoded_key with_seq_col with_rowid version rs sid =
     (absent_occurrence env encoded_key with_seq_col with_rowid rs sid \<or>
      (has_sequence_col schema \<and>
       deleted_occurrence env bm encoded_key with_seq_col with_rowid version rs sid))"

text \<open>
  The scan of a rowset reaches a segment: it is a candidate, and the scan goes past every
  candidate segment of the rowset with a higher id.
\<close>

definition reached ::
  "SegmentLayer \<Rightarrow> TabletSchema \<Rightarrow> DeleteBitmap \<Rightarrow> key \<Rightarrow> key \<Rightarrow> bool \<Rightarrow> bool \<Rightarrow> Version
     \<Rightarrow> Rowset \<Rightarrow> SegmentId \<Rightarrow> bool" where
  "reached env schema bm encoded_key probe_key with_seq_col with_rowid version rs j =
     (candidate env probe_key rs j \<and>
      (\<forall>j' \<in> {j<..<num_segments rs}.
         candidate env probe_key rs j' \<longrightarrow>
         passed_over env schema bm encoded_key with_seq_col with_rowid version rs j'))"

text \<open>
  The segments of a rowset are at hand for the lookup: its cache handle is set, or its
  segments load.
\<close>

definition segments_at_hand :: "SegmentLayer \<Rightarrow> bool \<Rightarrow> Rowset \<Rightarrow> bool" where
  "segments_at_hand env cached rs = (cached \<or> load_segments env (rs_rowset_id rs) = OK)"

text \<open>
  The lookup leaves a rowset without an answer: the rowset has no candidate segment, or
  its segments are at hand and no segment that the scan reaches holds a live occurrence
  or fails.
\<close>

definition left_without_answer ::
  "SegmentLayer \<Rightarrow> TabletSchema \<Rightarrow> DeleteBitmap \<Rightarrow> key \<Rightarrow> key \<Rightarrow> bool \<Rightarrow> bool \<Rightarrow> Version
     \<Rightarrow> bool \<Rightarrow> Rowset \<Rightarrow> bool" where
  "left_without_answer env schema bm encoded_key probe_key with_seq_col with_rowid version
       cached rs =
     ((\<forall>j < num_segments rs. \<not> candidate env probe_key rs j) \<or>
      (segments_at_hand env cached rs \<and>
       (\<forall>j < num_segments rs.
          reached env schema bm encoded_key probe_key with_seq_col with_rowid version rs j \<longrightarrow>
          \<not> live_occurrence env bm encoded_key with_seq_col with_rowid version rs j \<and>
          \<not> lookup_failure env encoded_key with_seq_col with_rowid rs j)))"

text \<open>
  No load and no segment-level lookup of a candidate segment fails, for the rowsets of a
  list with their positions from \<open>i\<close>.
\<close>

definition no_failure ::
  "SegmentLayer \<Rightarrow> key \<Rightarrow> key \<Rightarrow> bool \<Rightarrow> bool \<Rightarrow> (nat \<Rightarrow> bool) \<Rightarrow> Rowset list \<Rightarrow> bool" where
  "no_failure env encoded_key probe_key with_seq_col with_rowid segment_caches rowsets =
     (\<forall>n < length rowsets. \<forall>j < num_segments (rowsets ! n).
        candidate env probe_key (rowsets ! n) j \<longrightarrow>
        segments_at_hand env (segment_caches n) (rowsets ! n) \<and>
        \<not> lookup_failure env encoded_key with_seq_col with_rowid (rowsets ! n) j)"

section \<open>Example inputs\<close>

text \<open>Concrete schemas, tablets and rowsets on which the properties below are instantiated.\<close>

definition example_schema :: "bool \<Rightarrow> TabletSchema" where
  "example_schema seq =
     \<lparr>columns = [], has_sequence_col = seq, sequence_col_idx = 0, cluster_key_uids = []\<rparr>"

definition example_meta :: "TabletState \<Rightarrow> TabletMeta" where
  "example_meta st =
     \<lparr>tablet_state = st, tablet_schema = example_schema False, delete_bitmap = []\<rparr>"

definition example_env :: SegmentLayer where
  "example_env =
     \<lparr>key_is_not_in_segment = (\<lambda>k bounds truncated. False),
      load_segments = (\<lambda>rid. OK),
      segment_lookup_row_key =
        (\<lambda>rid sid k with_seq_col with_rowid.
           (OK, \<lparr>rowset_id = rid, segment_id = sid, row_id = 0\<rparr>)),
      decode_ascending = (\<lambda>s. (OK, 0)),
      read_key_by_rowid = (\<lambda>rid sid r. (OK, ''k'')),
      ROW_ID_LENGTH = 5,
      enable_merge_on_write_correctness_check = True\<rparr>"

definition example_rowset :: "RowsetId \<Rightarrow> nat \<Rightarrow> Version \<Rightarrow> Rowset" where
  "example_rowset rid n v =
     \<lparr>rs_rowset_id = rid, start_version = v, end_version = v, num_segments = n,
      segments_key_bounds = replicate n \<lparr>min_key = ''a'', max_key = ''z''\<rparr>,
      is_segments_key_bounds_truncated = False, produced_by_compaction = False\<rparr>"

definition no_segment_caches :: "nat \<Rightarrow> bool" where
  "no_segment_caches = (\<lambda>i. False)"

definition deleted_newest_meta :: TabletMeta where
  "deleted_newest_meta =
     \<lparr>tablet_state = TABLET_RUNNING, tablet_schema = example_schema False,
      delete_bitmap = [((1, 1, 0), [0])]\<rparr>"

section \<open>Rowset ids of the tablet and their reconciliation\<close>

text \<open>
  The parts of \<^verbatim>\<open>BaseTablet\<close> that the delete bitmap update reads: the tablet meta, the
  map from version ranges to rowsets, and two collaborators outside the source at hand,
  taken as parameters: \<^verbatim>\<open>max_version_unlocked()\<close> and the version tracker's
  \<^verbatim>\<open>capture_consistent_versions\<close> for the range from 0 to a version.
\<close>

record BaseTablet =
  tablet_meta :: TabletMeta
  rs_version_map :: "((Version \<times> Version) \<times> Rowset) list"
  max_version_unlocked :: Version
  capture_consistent_versions :: "Version \<Rightarrow> Status \<times> (Version \<times> Version) list"

text \<open>\<^verbatim>\<open>BaseTablet::get_all_rs_id_unlocked\<close>: the loop over the version path, then the function.\<close>

fun collect_rs_ids ::
  "BaseTablet \<Rightarrow> (Version \<times> Version) list \<Rightarrow> RowsetIdUnorderedSet
     \<Rightarrow> Status \<times> RowsetIdUnorderedSet" where
  "collect_rs_ids tablet [] rowset_ids = (OK, rowset_ids)"
| "collect_rs_ids tablet (ver # version_path) rowset_ids =
     (if snd ver = 1 then collect_rs_ids tablet version_path rowset_ids
      else case map_of (rs_version_map tablet) ver of
             None \<Rightarrow> (Error CAPTURE_ROWSET_ERROR, rowset_ids)
           | Some rs \<Rightarrow>
               collect_rs_ids tablet version_path (set_insert (rs_rowset_id rs) rowset_ids))"

definition get_all_rs_id_unlocked ::
  "BaseTablet \<Rightarrow> Version \<Rightarrow> RowsetIdUnorderedSet \<Rightarrow> Status \<times> RowsetIdUnorderedSet" where
  "get_all_rs_id_unlocked tablet max_version rowset_ids =
     (case capture_consistent_versions tablet max_version of
        (st, version_path) \<Rightarrow>
          if st \<noteq> OK then (st, rowset_ids)
          else collect_rs_ids tablet version_path rowset_ids)"

text \<open>
  \<^verbatim>\<open>std::sort\<close> with the comparison \<^verbatim>\<open>lhs->end_version() > rhs->end_version()\<close>: by
  descending end version. The library leaves the order of rowsets of equal end version
  open; the model keeps the order in which they were given, as the insertion sort does
  that the library runs on a short vector.
\<close>

definition sort_by_end_version_desc :: "Rowset list \<Rightarrow> Rowset list" where
  "sort_by_end_version_desc rowsets = sort_key (\<lambda>rs. - end_version rs) rowsets"

text \<open>
  \<^verbatim>\<open>BaseTablet::get_rowset_by_ids\<close>: the rowsets of the version map whose id is among the
  given ones (all of them for a null pointer), sorted by descending end version.
\<close>

definition get_rowset_by_ids :: "BaseTablet \<Rightarrow> RowsetIdUnorderedSet option \<Rightarrow> Rowset list" where
  "get_rowset_by_ids tablet specified_rowset_ids =
     sort_by_end_version_desc
       (filter (\<lambda>rs. case specified_rowset_ids of
                         None \<Rightarrow> True
                       | Some ids \<Rightarrow> rs_rowset_id rs \<in> set ids)
               (map snd (rs_version_map tablet)))"

text \<open>
  Dropping from the working bitmap the entries of the rowsets that are gone:
  \<^verbatim>\<open>delete_bitmap->remove({to_del, 0, 0}, {to_del, UINT32_MAX, INT64_MAX})\<close> for each id.
\<close>

definition remove_rowsets :: "RowsetIdUnorderedSet \<Rightarrow> DeleteBitmap \<Rightarrow> DeleteBitmap" where
  "remove_rowsets rowset_ids_to_del bm =
     foldl (\<lambda>bm to_del. remove (to_del, 0, 0) (to_del, UINT32_MAX, INT64_MAX) bm)
           bm rowset_ids_to_del"

text \<open>What the reconciliation of a delete bitmap update hands to the calculation.\<close>

record Reconciled =
  rc_cur_rowset_ids :: RowsetIdUnorderedSet
  rc_rowset_ids_to_add :: RowsetIdUnorderedSet
  rc_rowset_ids_to_del :: RowsetIdUnorderedSet
  rc_specified_rowsets :: "Rowset list"
  rc_rowsets_skip_alignment :: "Rowset list"
  rc_delete_bitmap :: DeleteBitmap
  rc_version :: Version

text \<open>
  The first part of \<^verbatim>\<open>BaseTablet::commit_phase_update_delete_bitmap\<close>, up to the call of
  \<^verbatim>\<open>calc_delete_bitmap\<close>: \<open>Inl\<close> is an early return, \<open>Inr\<close> carries the arguments of the
  calculation.
\<close>

definition commit_phase_reconcile ::
  "BaseTablet \<Rightarrow> RowsetIdUnorderedSet \<Rightarrow> DeleteBitmap \<Rightarrow> Status + Reconciled" where
  "commit_phase_reconcile tablet pre_rowset_ids bm =
     (if tablet_state (tablet_meta tablet) = TABLET_NOTREADY then Inl OK
      else
        let cur_version = max_version_unlocked tablet in
        case get_all_rs_id_unlocked tablet cur_version [] of
          (st, cur) \<Rightarrow>
            if st \<noteq> OK then Inl st
            else
              case rowset_ids_difference cur pre_rowset_ids [] [] of
                (to_add, to_del) \<Rightarrow>
                  Inr \<lparr>rc_cur_rowset_ids = cur,
                       rc_rowset_ids_to_add = to_add,
                       rc_rowset_ids_to_del = to_del,
                       rc_specified_rowsets = get_rowset_by_ids tablet (Some to_add),
                       rc_rowsets_skip_alignment = [],
                       rc_delete_bitmap = remove_rowsets to_del bm,
                       rc_version = cur_version\<rparr>)"

datatype UniqueKeyUpdateMode = UPSERT | UPDATE_FIXED_COLUMNS | UPDATE_FLEXIBLE_COLUMNS

text \<open>
  Modelled from the spec: \<^verbatim>\<open>PartialUpdateInfo\<close> (\<^verbatim>\<open>olap/partial_update_info.h\<close>) with the
  attributes of the data model: update and missing column ids, default values, the mode,
  and the largest version seen in the flush phase.
\<close>

record PartialUpdateInfo =
  partial_update_mode :: UniqueKeyUpdateMode
  update_cids :: "nat list"
  missing_cids :: "nat list"
  default_values :: "string list"
  max_version_in_flush_phase :: int

definition is_partial_update :: "PartialUpdateInfo \<Rightarrow> bool" where
  "is_partial_update info = (partial_update_mode info \<noteq> UPSERT)"

definition is_fixed_partial_update :: "PartialUpdateInfo \<Rightarrow> bool" where
  "is_fixed_partial_update info = (partial_update_mode info = UPDATE_FIXED_COLUMNS)"

definition is_flexible_partial_update :: "PartialUpdateInfo \<Rightarrow> bool" where
  "is_flexible_partial_update info = (partial_update_mode info = UPDATE_FLEXIBLE_COLUMNS)"

record TabletTxnInfo =
  txn_rowset :: Rowset
  txn_rowset_ids :: RowsetIdUnorderedSet
  is_txn_load :: bool
  next_visible_version :: Version
  invisible_rowsets :: "Rowset list"
  txn_partial_update_info :: "PartialUpdateInfo option"

text \<open>
  The condition under which the publish phase of a partial update skips the alignment of a
  base rowset: it was produced by compaction and ends at or before the largest version
  seen in the flush phase.
\<close>

definition skips_alignment :: "TabletTxnInfo \<Rightarrow> Rowset \<Rightarrow> bool" where
  "skips_alignment txn_info rs =
     (case txn_partial_update_info txn_info of
        None \<Rightarrow> False
      | Some info \<Rightarrow>
          is_partial_update info \<and>
          end_version rs \<le> max_version_in_flush_phase info \<and> produced_by_compaction rs)"

text \<open>
  The part of \<^verbatim>\<open>BaseTablet::update_delete_bitmap\<close> (publish phase) from the test of the
  tablet state to the calls of \<^verbatim>\<open>calc_delete_bitmap\<close>: the snapshot of the rowset ids at
  the version before the one that becomes visible, the difference to the ids of the
  transaction, the removal from the working bitmap, and the two lists of base rowsets
  (those whose alignment is skipped, and the others).
\<close>

definition update_delete_bitmap_reconcile ::
  "BaseTablet \<Rightarrow> TabletTxnInfo \<Rightarrow> DeleteBitmap \<Rightarrow> Status + Reconciled" where
  "update_delete_bitmap_reconcile self txn_info bm =
     (let cur_version = start_version (txn_rowset txn_info);
          next_visible =
            (if is_txn_load txn_info then next_visible_version txn_info
             else start_version (txn_rowset txn_info))
      in
      if tablet_state (tablet_meta self) = TABLET_NOTREADY then Inl OK
      else
        case get_all_rs_id_unlocked self (next_visible - 1) [] of
          (st, cur) \<Rightarrow>
            if st \<noteq> OK then Inl st
            else
              case rowset_ids_difference cur (txn_rowset_ids txn_info) [] [] of
                (to_add, to_del) \<Rightarrow>
                  let by_ids = get_rowset_by_ids self (Some to_add);
                      specified =
                        (if is_txn_load txn_info
                         then sort_by_end_version_desc (by_ids @ invisible_rowsets txn_info)
                         else by_ids);
                      skip = filter (skips_alignment txn_info) specified;
                      remained = filter (\<lambda>rs. \<not> skips_alignment txn_info rs) specified
                  in Inr \<lparr>rc_cur_rowset_ids = cur,
                          rc_rowset_ids_to_add = to_add,
                          rc_rowset_ids_to_del = to_del,
                          rc_specified_rowsets = (if skip \<noteq> [] then remained else specified),
                          rc_rowsets_skip_alignment = skip,
                          rc_delete_bitmap = remove_rowsets to_del bm,
                          rc_version = cur_version - 1\<rparr>)"

definition example_tablet :: BaseTablet where
  "example_tablet =
     \<lparr>tablet_meta = example_meta TABLET_RUNNING,
      rs_version_map = [((2, 2), example_rowset 1 1 2), ((3, 3), example_rowset 2 1 3)],
      max_version_unlocked = 3,
      capture_consistent_versions = (\<lambda>v. (OK, [(0, 1), (2, 2), (3, 3)]))\<rparr>"

definition example_txn_info :: TabletTxnInfo where
  "example_txn_info =
     \<lparr>txn_rowset = example_rowset 7 1 4, txn_rowset_ids = [1, 5], is_txn_load = True,
      next_visible_version = 4, invisible_rowsets = [example_rowset 9 1 4],
      txn_partial_update_info = None\<rparr>"

definition example_bitmap :: DeleteBitmap where
  "example_bitmap = [((1, 0, 2), [3]), ((5, 0, 1), [4, 6]), ((5, 1, 0), [0])]"

definition example_commit_reconciled :: Reconciled where
  "example_commit_reconciled =
     \<lparr>rc_cur_rowset_ids = [1, 2], rc_rowset_ids_to_add = [2], rc_rowset_ids_to_del = [5],
      rc_specified_rowsets = [example_rowset 2 1 3], rc_rowsets_skip_alignment = [],
      rc_delete_bitmap = [((1, 0, 2), [3])], rc_version = 3\<rparr>"

definition example_publish_reconciled :: Reconciled where
  "example_publish_reconciled =
     \<lparr>rc_cur_rowset_ids = [1, 2], rc_rowset_ids_to_add = [2], rc_rowset_ids_to_del = [5],
      rc_specified_rowsets = [example_rowset 9 1 4, example_rowset 2 1 3],
      rc_rowsets_skip_alignment = [],
      rc_delete_bitmap = [((1, 0, 2), [3])], rc_version = 3\<rparr>"

section \<open>Delete bitmap calculation for one segment\<close>

text \<open>
  A segment of the rowset being written: its id, the keys of its primary key index in
  index order, and two collaborators outside the source at hand, taken as parameters: the
  status of \<^verbatim>\<open>load_pk_index_and_bf\<close>, and the status of opening an index iterator, seeking
  and reading the batch that starts at a given ordinal.
\<close>

record Segment =
  seg_id :: SegmentId
  pk_index :: "key list"
  load_pk_index_and_bf :: Status
  read_batch :: "nat \<Rightarrow> Status"

text \<open>
  Modelled from the spec: a read plan (\<^verbatim>\<open>FixedReadPlan\<close>, \<^verbatim>\<open>olap/partial_update_info.h\<close>)
  is the queue of the row locations to fetch, each with the position of its row in the
  block to build.
\<close>

type_synonym FixedReadPlan = "(RowLocation \<times> nat) list"

definition prepare_to_read :: "RowLocation \<Rightarrow> nat \<Rightarrow> FixedReadPlan \<Rightarrow> FixedReadPlan" where
  "prepare_to_read loc pos plan = plan @ [(loc, pos)]"

text \<open>
  The local variables of \<^verbatim>\<open>calc_segment_delete_bitmap\<close> that its loops change, with the
  delete bitmap that the caller passes.
\<close>

record CalcState =
  cs_delete_bitmap :: DeleteBitmap
  cs_row_id :: rowid
  cs_read_plan_ori :: FixedReadPlan
  cs_read_plan_update :: FixedReadPlan
  cs_rids_be_overwritten :: "nat set"
  cs_rsid_to_rowset :: "RowsetId \<rightharpoonup> Rowset"
  cs_pos :: nat
  cs_conflict_rows :: nat
  cs_new_generated_rows :: nat
  cs_segment_caches :: "nat \<Rightarrow> bool"

text \<open>
  The rowset writer of a partial update. \<open>reconstruct_and_flush\<close> is the status of the
  last step of the calculation, outside the concern of the bitmap: building the new block
  from the two read plans, sorting it and flushing it through the writer.
\<close>

record RowsetWriter =
  writer_is_partial_update :: bool
  get_partial_update_info :: PartialUpdateInfo
  reconstruct_and_flush :: "FixedReadPlan \<Rightarrow> FixedReadPlan \<Rightarrow> Status"

text \<open>
  The arguments of \<^verbatim>\<open>calc_segment_delete_bitmap\<close> and the tablet meta of \<^verbatim>\<open>this\<close>.
  \<open>ca_rowset_schema\<close> is \<^verbatim>\<open>rowset->tablet_schema()\<close>; the writer and the tablet delete
  bitmap are pointers that may be null.
\<close>

record CalcArgs =
  ca_tablet_meta :: TabletMeta
  ca_rowset :: Rowset
  ca_rowset_schema :: TabletSchema
  ca_seg :: Segment
  ca_specified_rowsets :: "Rowset list"
  ca_end_version :: Version
  ca_rowset_writer :: "RowsetWriter option"
  ca_tablet_delete_bitmap :: "DeleteBitmap option"

definition default_row_location :: RowLocation where
  "default_row_location = \<lparr>rowset_id = 0, segment_id = 0, row_id = 0\<rparr>"

text \<open>\<^verbatim>\<open>is_partial_update\<close>: \<^verbatim>\<open>rowset_writer && rowset_writer->is_partial_update()\<close>.\<close>

definition writes_partial_update :: "CalcArgs \<Rightarrow> bool" where
  "writes_partial_update a =
     (case ca_rowset_writer a of None \<Rightarrow> False | Some w \<Rightarrow> writer_is_partial_update w)"

definition writes_fixed_partial_update :: "CalcArgs \<Rightarrow> bool" where
  "writes_fixed_partial_update a =
     (case ca_rowset_writer a of
        None \<Rightarrow> False
      | Some w \<Rightarrow> is_fixed_partial_update (get_partial_update_info w))"

definition writes_flexible_partial_update :: "CalcArgs \<Rightarrow> bool" where
  "writes_flexible_partial_update a =
     (case ca_rowset_writer a of
        None \<Rightarrow> False
      | Some w \<Rightarrow> is_flexible_partial_update (get_partial_update_info w))"

text \<open>
  \<^verbatim>\<open>have_input_seq_column\<close>: set only for a fixed partial update of a schema with a sequence
  column, when the update columns include the sequence column.
\<close>

definition have_input_seq_column :: "CalcArgs \<Rightarrow> bool" where
  "have_input_seq_column a =
     (case ca_rowset_writer a of
        None \<Rightarrow> False
      | Some w \<Rightarrow>
          writer_is_partial_update w \<and>
          is_fixed_partial_update (get_partial_update_info w) \<and>
          has_sequence_col (ca_rowset_schema a) \<and>
          sequence_col_idx (ca_rowset_schema a) \<in> set (update_cids (get_partial_update_info w)))"

text \<open>
  The row id of a key of the index: the running counter, or for a schema with cluster keys
  the row id decoded from the suffix of the key. The sizes and the offset of the slice are
  computed in \<^verbatim>\<open>size_t\<close>; a slice that starts past the bytes of the key is empty in the
  model.
\<close>

definition row_id_of_key :: "SegmentLayer \<Rightarrow> CalcArgs \<Rightarrow> key \<Rightarrow> rowid \<Rightarrow> Status \<times> rowid" where
  "row_id_of_key env a k counter =
     (let schema = tablet_schema (ca_tablet_meta a) in
      if cluster_key_uids schema \<noteq> [] then
        let seq_col_length =
              (if has_sequence_col schema
               then col_length (column schema (sequence_col_idx schema)) + 1 else 0);
            rowid_length = ROW_ID_LENGTH env;
            key_without_seq_size =
              size_t (int (length k) - int seq_col_length - int rowid_length);
            rowid_slice =
              take (size_t (int rowid_length - 1))
                (drop (size_t (int key_without_seq_size + int seq_col_length + 1)) k)
        in case decode_ascending env rowid_slice of
             (s, rid) \<Rightarrow> if s \<noteq> OK then (s, counter) else (OK, rid)
      else (OK, counter))"

text \<open>
  The body of the loop over the keys of a batch, for one key. A status other than OK is
  returned by \<^verbatim>\<open>calc_segment_delete_bitmap\<close> at once; with OK the loop goes on. The lookup
  is made with the schema of the rowset (without the extracted columns of variants, which
  changes none of the parts modelled), at the version \<^verbatim>\<open>dummy_version.first - 1\<close>; the call
  without tablet delete bitmap leaves \<^verbatim>\<open>with_rowid\<close> to its default, which is true as in
  the other call.
\<close>

definition calc_segment_row :: "SegmentLayer \<Rightarrow> CalcArgs \<Rightarrow> key \<Rightarrow> CalcState \<Rightarrow> Status \<times> CalcState"
  where
  "calc_segment_row env a k st0 =
     (let rsid = rs_rowset_id (ca_rowset a);
          sid = seg_id (ca_seg a)
      in
      case row_id_of_key env a k (cs_row_id st0) of
        (ds, rid) \<Rightarrow>
          if ds \<noteq> OK then (ds, st0)
          else
            let st1 = st0\<lparr>cs_row_id := rid\<rparr> in
            if contains (cs_delete_bitmap st1) (rsid, sid, TEMP_VERSION_COMMON) rid
            then (OK, st1)
            else
              case lookup_row_key env (ca_tablet_meta a) k (Some (ca_rowset_schema a)) True
                     (ca_specified_rowsets a) (ca_end_version a + 1 - 1)
                     (cs_segment_caches st1) True (ca_tablet_delete_bitmap a) of
                (s, found, rowset_find, caches) \<Rightarrow>
                  let st2 = st1\<lparr>cs_segment_caches := caches\<rparr>;
                      loc = (case found of None \<Rightarrow> default_row_location | Some l \<Rightarrow> l)
                  in
                  if \<not> (s = OK \<or> s = Error KEY_NOT_FOUND \<or> s = Error KEY_ALREADY_EXISTS)
                  then (s, st2)
                  else if s = Error KEY_NOT_FOUND then (OK, st2)
                  else
                    let st3 = st2\<lparr>cs_conflict_rows := cs_conflict_rows st2 + 1\<rparr> in
                    if s = Error KEY_ALREADY_EXISTS \<and>
                       (\<not> writes_partial_update a \<or>
                        (writes_fixed_partial_update a \<and> have_input_seq_column a))
                    then
                      (OK, st3\<lparr>cs_delete_bitmap :=
                                   add (rsid, sid, TEMP_VERSION_COMMON) rid
                                     (cs_delete_bitmap st3)\<rparr>)
                    else if writes_partial_update a \<and> ca_rowset_writer a \<noteq> None then
                      (OK, st3\<lparr>cs_read_plan_ori :=
                                   prepare_to_read loc (cs_pos st3) (cs_read_plan_ori st3),
                                 cs_read_plan_update :=
                                   prepare_to_read
                                     \<lparr>rowset_id = rsid, segment_id = sid, row_id = rid\<rparr>
                                     (cs_pos st3) (cs_read_plan_update st3),
                                 cs_rids_be_overwritten :=
                                   (if s = Error KEY_ALREADY_EXISTS \<and>
                                       writes_flexible_partial_update a
                                    then insert (cs_pos st3) (cs_rids_be_overwritten st3)
                                    else cs_rids_be_overwritten st3),
                                 cs_rsid_to_rowset :=
                                   (case rowset_find of
                                      None \<Rightarrow> cs_rsid_to_rowset st3
                                    | Some rs \<Rightarrow> (cs_rsid_to_rowset st3)(rs_rowset_id rs \<mapsto> rs)),
                                 cs_pos := cs_pos st3 + 1,
                                 cs_delete_bitmap :=
                                   add (rsid, sid, TEMP_VERSION_COMMON) rid
                                     (add (rowset_id loc, segment_id loc,
                                           TEMP_VERSION_COMMON) (row_id loc)
                                        (cs_delete_bitmap st3)),
                                 cs_new_generated_rows := cs_new_generated_rows st3 + 1\<rparr>)
                    else
                      (OK, st3\<lparr>cs_delete_bitmap :=
                                   add (rowset_id loc, segment_id loc,
                                        TEMP_VERSION_COMMON) (row_id loc)
                                     (cs_delete_bitmap st3)\<rparr>))"

text \<open>The loop over the keys of a batch: the row id counter advances after every key.\<close>

fun calc_segment_rows ::
  "SegmentLayer \<Rightarrow> CalcArgs \<Rightarrow> key list \<Rightarrow> CalcState \<Rightarrow> Status \<times> CalcState" where
  "calc_segment_rows env a [] st = (OK, st)"
| "calc_segment_rows env a (k # ks) st =
     (case calc_segment_row env a k st of
        (s, st') \<Rightarrow>
          if s \<noteq> OK then (s, st')
          else calc_segment_rows env a ks (st'\<lparr>cs_row_id := cs_row_id st' + 1\<rparr>))"

definition batch_size :: nat where
  "batch_size = 1024"

text \<open>
  The loop over the batches, \<^verbatim>\<open>while (remaining > 0)\<close>. Each batch is read from the key at
  which the previous one ended; the keys of a segment ascend strictly, so the iterator
  stands at ordinal \<open>total - remaining\<close>
  (\<^verbatim>\<open>DCHECK(total == remaining + current_ordinal)\<close>). The last key of a full batch that is
  not the last batch is left to the next batch.
\<close>

function calc_segment_batches ::
  "SegmentLayer \<Rightarrow> CalcArgs \<Rightarrow> nat \<Rightarrow> CalcState \<Rightarrow> Status \<times> CalcState" where
  "calc_segment_batches env a remaining st =
     (if remaining = 0 then (OK, st)
      else
        let total = length (pk_index (ca_seg a));
            current_ordinal = total - remaining
        in
        if read_batch (ca_seg a) current_ordinal \<noteq> OK
        then (read_batch (ca_seg a) current_ordinal, st)
        else
          let num_to_read = min batch_size remaining;
              index_column = take num_to_read (drop current_ordinal (pk_index (ca_seg a)));
              num_read =
                (if num_to_read = batch_size \<and> num_to_read \<noteq> remaining
                 then num_to_read - 1 else num_to_read)
          in
          case calc_segment_rows env a (take num_read index_column) st of
            (s, st') \<Rightarrow>
              if s \<noteq> OK then (s, st')
              else calc_segment_batches env a (remaining - num_read) st')"
  by pat_completeness auto
termination
  by (relation "measure (\<lambda>(env, a, remaining, st). remaining)")
     (auto simp: batch_size_def min_def split: if_splits)

definition initial_calc_state :: "CalcArgs \<Rightarrow> DeleteBitmap \<Rightarrow> CalcState" where
  "initial_calc_state a bm =
     \<lparr>cs_delete_bitmap = bm, cs_row_id = 0, cs_read_plan_ori = [], cs_read_plan_update = [],
      cs_rids_be_overwritten = {},
      cs_rsid_to_rowset = [rs_rowset_id (ca_rowset a) \<mapsto> ca_rowset a],
      cs_pos = 0, cs_conflict_rows = 0, cs_new_generated_rows = 0,
      cs_segment_caches = (\<lambda>i. False)\<rparr>"

text \<open>
  \<^verbatim>\<open>BaseTablet::calc_segment_delete_bitmap\<close>: the status returned, and the state with the
  delete bitmap as the call leaves it.
\<close>

definition calc_segment_delete_bitmap ::
  "SegmentLayer \<Rightarrow> CalcArgs \<Rightarrow> DeleteBitmap \<Rightarrow> Status \<times> CalcState" where
  "calc_segment_delete_bitmap env a bm =
     (if load_pk_index_and_bf (ca_seg a) \<noteq> OK
      then (load_pk_index_and_bf (ca_seg a), initial_calc_state a bm)
      else
        case calc_segment_batches env a (length (pk_index (ca_seg a)))
               (initial_calc_state a bm) of
          (s, st) \<Rightarrow>
            if s \<noteq> OK then (s, st)
            else
              let st' =
                    (if enable_merge_on_write_correctness_check env
                     then st\<lparr>cs_delete_bitmap :=
                                add_sentinel_mark_to_delete_bitmap (cs_delete_bitmap st)
                                  (foldl (\<lambda>ids rs. set_insert (rs_rowset_id rs) ids) []
                                     (ca_specified_rowsets a))\<rparr>
                     else st)
              in
              if 0 < cs_pos st' then
                (case ca_rowset_writer a of
                   None \<Rightarrow> (OK, st')
                 | Some w \<Rightarrow>
                     (reconstruct_and_flush w (cs_read_plan_ori st') (cs_read_plan_update st'),
                      st'))
              else (OK, st'))"

text \<open>
  \<^verbatim>\<open>BaseTablet::calc_delete_bitmap\<close>. With a token every segment is submitted to the
  executor (\<open>token\<close> gives the status of the submission) and nothing is computed in the
  call; without one every segment is computed in the call.
\<close>

fun calc_delete_bitmap_segments ::
  "SegmentLayer \<Rightarrow> CalcArgs \<Rightarrow> Segment list \<Rightarrow> (Segment \<Rightarrow> Status) option \<Rightarrow> DeleteBitmap
     \<Rightarrow> Status \<times> DeleteBitmap" where
  "calc_delete_bitmap_segments env a [] token bm = (OK, bm)"
| "calc_delete_bitmap_segments env a (seg # segments) token bm =
     (case token of
        Some submit \<Rightarrow>
          if submit seg \<noteq> OK then (submit seg, bm)
          else calc_delete_bitmap_segments env a segments token bm
      | None \<Rightarrow>
          (case calc_segment_delete_bitmap env (a\<lparr>ca_seg := seg\<rparr>) bm of
             (s, st) \<Rightarrow>
               if s \<noteq> OK then (s, cs_delete_bitmap st)
               else calc_delete_bitmap_segments env a segments token (cs_delete_bitmap st)))"

definition calc_delete_bitmap ::
  "SegmentLayer \<Rightarrow> CalcArgs \<Rightarrow> Segment list \<Rightarrow> (Segment \<Rightarrow> Status) option \<Rightarrow> DeleteBitmap
     \<Rightarrow> Status \<times> DeleteBitmap" where
  "calc_delete_bitmap env a segments token bm =
     (if ca_specified_rowsets a = [] \<or> segments = [] then (OK, bm)
      else calc_delete_bitmap_segments env a segments token bm)"

text \<open>
  \<^verbatim>\<open>BaseTablet::commit_phase_update_delete_bitmap\<close>: the reconciliation, then the
  calculation against the rowsets to add at the current version, with the delete bitmap
  of the tablet meta. The result is the status, the rowset ids now known to the write
  (replaced by the current ones on success) and the working bitmap.
\<close>

definition commit_phase_update_delete_bitmap ::
  "SegmentLayer \<Rightarrow> BaseTablet \<Rightarrow> CalcArgs \<Rightarrow> RowsetIdUnorderedSet \<Rightarrow> DeleteBitmap
     \<Rightarrow> Segment list \<Rightarrow> (Segment \<Rightarrow> Status) option
     \<Rightarrow> Status \<times> RowsetIdUnorderedSet \<times> DeleteBitmap" where
  "commit_phase_update_delete_bitmap env tablet a pre_rowset_ids bm segments token =
     (case commit_phase_reconcile tablet pre_rowset_ids bm of
        Inl s \<Rightarrow> (s, pre_rowset_ids, bm)
      | Inr rc \<Rightarrow>
          (case calc_delete_bitmap env
                  (a\<lparr>ca_tablet_meta := tablet_meta tablet,
                     ca_specified_rowsets := rc_specified_rowsets rc,
                     ca_end_version := rc_version rc,
                     ca_tablet_delete_bitmap := None\<rparr>)
                  segments token (rc_delete_bitmap rc) of
             (s, bm') \<Rightarrow>
               if s \<noteq> OK then (s, pre_rowset_ids, bm')
               else (OK, rc_cur_rowset_ids rc, bm')))"

definition example_segment :: "SegmentId \<Rightarrow> key list \<Rightarrow> Segment" where
  "example_segment sid ks =
     \<lparr>seg_id = sid, pk_index = ks, load_pk_index_and_bf = OK, read_batch = (\<lambda>n. OK)\<rparr>"

definition example_info :: "UniqueKeyUpdateMode \<Rightarrow> PartialUpdateInfo" where
  "example_info mode =
     \<lparr>partial_update_mode = mode, update_cids = [], missing_cids = [], default_values = [],
      max_version_in_flush_phase = 0\<rparr>"

definition example_writer :: "UniqueKeyUpdateMode \<Rightarrow> RowsetWriter" where
  "example_writer mode =
     \<lparr>writer_is_partial_update = (mode \<noteq> UPSERT),
      get_partial_update_info = example_info mode,
      reconstruct_and_flush = (\<lambda>ori upd. OK)\<rparr>"

definition example_args :: "RowsetWriter option \<Rightarrow> Rowset list \<Rightarrow> CalcArgs" where
  "example_args writer base =
     \<lparr>ca_tablet_meta = example_meta TABLET_RUNNING,
      ca_rowset = example_rowset 7 1 4,
      ca_rowset_schema = example_schema False,
      ca_seg = example_segment 0 [''k''],
      ca_specified_rowsets = base,
      ca_end_version = 3,
      ca_rowset_writer = writer,
      ca_tablet_delete_bitmap = None\<rparr>"

definition unchecked_env :: SegmentLayer where
  "unchecked_env = example_env\<lparr>enable_merge_on_write_correctness_check := False\<rparr>"

definition base_rowset :: Rowset where
  "base_rowset = example_rowset 1 1 2"

definition new_segment :: Segment where
  "new_segment = example_segment 0 [''k'']"

definition partial_args :: CalcArgs where
  "partial_args = example_args (Some (example_writer UPDATE_FIXED_COLUMNS)) [base_rowset]"

definition old_location :: RowLocation where
  "old_location = \<lparr>rowset_id = 1, segment_id = 0, row_id = 0\<rparr>"

definition new_location :: RowLocation where
  "new_location = \<lparr>rowset_id = 7, segment_id = 0, row_id = 0\<rparr>"

section \<open>Delete bitmap of a compaction output\<close>

text \<open>
  Modelled from the spec: the row id conversion table (\<^verbatim>\<open>olap/rowid_conversion.h\<close>) of a
  compaction is a partial function from source to destination locations;
  \<^verbatim>\<open>rowid_conversion.get(src, &dst)\<close> fails on a source row without destination.
\<close>

type_synonym RowIdConversion = "RowLocation \<rightharpoonup> RowLocation"

text \<open>
  The location map given to \<^verbatim>\<open>calc_compaction_output_rowset_delete_bitmap\<close> maps an input
  rowset to its list of (source, destination) pairs; it is kept as the list of its
  entries, a new rowset entering at the end.
\<close>

type_synonym LocationMap = "(Rowset \<times> (RowLocation \<times> RowLocation) list) list"

fun location_map_emplace_back ::
  "Rowset \<Rightarrow> RowLocation \<times> RowLocation \<Rightarrow> LocationMap \<Rightarrow> LocationMap" where
  "location_map_emplace_back rs p [] = [(rs, [p])]"
| "location_map_emplace_back rs p ((rs', ps) # m) =
     (if rs' = rs then (rs', ps @ [p]) # m else (rs', ps) # location_map_emplace_back rs p m)"

text \<open>
  The three results of the function: the set of missed rows and the location map (both
  given by pointers that may be null), and the delete bitmap of the output rowset.
\<close>

record CompactionOutput =
  co_missed_rows :: "RowLocation set option"
  co_location_map :: "LocationMap option"
  co_output_rowset_delete_bitmap :: DeleteBitmap

text \<open>The body of the innermost loop, for one marked row of one version of one segment.\<close>

definition convert_marked_row ::
  "RowIdConversion \<Rightarrow> Rowset \<Rightarrow> SegmentId \<Rightarrow> BitmapVersion \<Rightarrow> CompactionOutput \<Rightarrow> rowid
     \<Rightarrow> CompactionOutput" where
  "convert_marked_row rowid_conversion rs seg cur_version out r =
     (let src = \<lparr>rowset_id = rs_rowset_id rs, segment_id = seg, row_id = r\<rparr> in
      case rowid_conversion src of
        None \<Rightarrow> out\<lparr>co_missed_rows := map_option (insert src) (co_missed_rows out)\<rparr>
      | Some dst \<Rightarrow>
          out\<lparr>co_location_map :=
                 map_option (location_map_emplace_back rs (src, dst)) (co_location_map out),
               co_output_rowset_delete_bitmap :=
                 add (rowset_id dst, segment_id dst, cur_version) (row_id dst)
                   (co_output_rowset_delete_bitmap out)\<rparr>)"

text \<open>The loop over the versions of the subset of one segment, and over their rows.\<close>

definition convert_segment ::
  "RowIdConversion \<Rightarrow> BitmapVersion \<Rightarrow> BitmapVersion \<Rightarrow> DeleteBitmap \<Rightarrow> Rowset
     \<Rightarrow> CompactionOutput \<Rightarrow> SegmentId \<Rightarrow> CompactionOutput" where
  "convert_segment rowid_conversion start_v end_v input_delete_bitmap rs out seg =
     (let subset_map =
            subset (rs_rowset_id rs, seg, start_v) (rs_rowset_id rs, seg, end_v)
              input_delete_bitmap
      in foldl (\<lambda>out entry.
                  foldl (convert_marked_row rowid_conversion rs seg (snd (snd (fst entry))))
                        out (snd entry))
               out subset_map)"

text \<open>\<^verbatim>\<open>BaseTablet::calc_compaction_output_rowset_delete_bitmap\<close>.\<close>

definition calc_compaction_output_rowset_delete_bitmap ::
  "Rowset list \<Rightarrow> RowIdConversion \<Rightarrow> BitmapVersion \<Rightarrow> BitmapVersion \<Rightarrow> DeleteBitmap
     \<Rightarrow> CompactionOutput \<Rightarrow> CompactionOutput" where
  "calc_compaction_output_rowset_delete_bitmap input_rowsets rowid_conversion
       start_v end_v input_delete_bitmap out =
     foldl (\<lambda>out rs.
              foldl (convert_segment rowid_conversion start_v end_v
                       input_delete_bitmap rs)
                    out [0..<num_segments rs])
           out input_rowsets"

text \<open>
  The marked rows of the segments of the input rowsets, as source locations with the
  version of the mark.
\<close>

definition marked_source ::
  "Rowset list \<Rightarrow> DeleteBitmap \<Rightarrow> RowLocation \<Rightarrow> BitmapVersion \<Rightarrow> bool" where
  "marked_source input_rowsets input_delete_bitmap src v =
     ((\<exists>rs \<in> set input_rowsets.
         rowset_id src = rs_rowset_id rs \<and> segment_id src < num_segments rs) \<and>
      contains input_delete_bitmap (rowset_id src, segment_id src, v) (row_id src))"

definition example_conversion :: RowIdConversion where
  "example_conversion =
     [\<lparr>rowset_id = 1, segment_id = 0, row_id = 3\<rparr>
        \<mapsto> \<lparr>rowset_id = 8, segment_id = 0, row_id = 5\<rparr>]"

definition example_output :: CompactionOutput where
  "example_output =
     \<lparr>co_missed_rows = Some {}, co_location_map = Some [],
      co_output_rowset_delete_bitmap = []\<rparr>"

definition compaction_input_bitmap :: DeleteBitmap where
  "compaction_input_bitmap = [((1, 0, 2), [3, 4]), ((1, 0, 9), [6])]"

definition mapped_source :: RowLocation where
  "mapped_source = \<lparr>rowset_id = 1, segment_id = 0, row_id = 3\<rparr>"

definition unmapped_source :: RowLocation where
  "unmapped_source = \<lparr>rowset_id = 1, segment_id = 0, row_id = 4\<rparr>"

section \<open>Check of the row id conversion\<close>

text \<open>
  A pair that \<^verbatim>\<open>check_rowid_conversion\<close> verifies, as its debug log records it once both
  keys are read: source and destination location, source and destination key.
\<close>

type_synonym VerifiedPair = "RowLocation \<times> RowLocation \<times> key \<times> key"

definition keys_equal :: "VerifiedPair \<Rightarrow> bool" where
  "keys_equal p = (case p of (src, dst, src_key, dst_key) \<Rightarrow> src_key = dst_key)"

text \<open>
  The loop over the pairs of one input rowset. The segments read are those of the input
  rowset and of the destination rowset, at the segment ids of the locations. A source key
  that cannot be read by row id (\<open>NOT_IMPLEMENTED_ERROR\<close>) ends the loop with \<^verbatim>\<open>break\<close>.
\<close>

fun check_locations ::
  "SegmentLayer \<Rightarrow> Rowset \<Rightarrow> Rowset \<Rightarrow> (RowLocation \<times> RowLocation) list \<Rightarrow> VerifiedPair list
     \<Rightarrow> Status \<times> VerifiedPair list" where
  "check_locations env dst_rowset src_rowset [] log = (OK, log)"
| "check_locations env dst_rowset src_rowset ((src, dst) # locations) log =
     (case read_key_by_rowid env (rs_rowset_id src_rowset) (segment_id src) (row_id src) of
        (s, src_key) \<Rightarrow>
          if s = Error NOT_IMPLEMENTED_ERROR then (OK, log)
          else if s \<noteq> OK then (s, log)
          else
            case read_key_by_rowid env (rs_rowset_id dst_rowset) (segment_id dst) (row_id dst)
            of (s', dst_key) \<Rightarrow>
              if s' \<noteq> OK then (s', log)
              else if src_key \<noteq> dst_key
              then (Error INTERNAL_ERROR, log @ [(src, dst, src_key, dst_key)])
              else check_locations env dst_rowset src_rowset locations
                     (log @ [(src, dst, src_key, dst_key)]))"

text \<open>
  The loop over the entries of the location map. Each entry is a different input rowset,
  whose segments are loaded when the loop reaches it.
\<close>

fun check_location_map ::
  "SegmentLayer \<Rightarrow> Rowset \<Rightarrow> LocationMap \<Rightarrow> VerifiedPair list \<Rightarrow> Status \<times> VerifiedPair list"
  where
  "check_location_map env dst_rowset [] log = (OK, log)"
| "check_location_map env dst_rowset ((src_rowset, locations) # location_map) log =
     (if load_segments env (rs_rowset_id src_rowset) \<noteq> OK
      then (load_segments env (rs_rowset_id src_rowset), log)
      else
        case check_locations env dst_rowset src_rowset locations log of
          (s, log') \<Rightarrow>
            if s \<noteq> OK then (s, log')
            else check_location_map env dst_rowset location_map log')"

text \<open>
  \<^verbatim>\<open>BaseTablet::check_rowid_conversion\<close>: the status, and the pairs verified.
  \<^verbatim>\<open>DCHECK(false)\<close> is empty in a release build.
\<close>

definition check_rowid_conversion ::
  "SegmentLayer \<Rightarrow> Rowset \<Rightarrow> LocationMap \<Rightarrow> Status \<times> VerifiedPair list" where
  "check_rowid_conversion env dst_rowset location_map =
     (if location_map = [] then (OK, [])
      else if load_segments env (rs_rowset_id dst_rowset) \<noteq> OK
      then (load_segments env (rs_rowset_id dst_rowset), [])
      else check_location_map env dst_rowset location_map [])"

text \<open>
  The two key reads that \<^verbatim>\<open>check_rowid_conversion\<close> makes for a pair of the location map
  of an input rowset: at the source location in the input rowset, at the destination
  location in the destination rowset.
\<close>

definition src_read :: "SegmentLayer \<Rightarrow> Rowset \<Rightarrow> RowLocation \<times> RowLocation \<Rightarrow> Status \<times> key" where
  "src_read env src_rowset p =
     read_key_by_rowid env (rs_rowset_id src_rowset) (segment_id (fst p)) (row_id (fst p))"

definition dst_read :: "SegmentLayer \<Rightarrow> Rowset \<Rightarrow> RowLocation \<times> RowLocation \<Rightarrow> Status \<times> key" where
  "dst_read env dst_rowset p =
     read_key_by_rowid env (rs_rowset_id dst_rowset) (segment_id (snd p)) (row_id (snd p))"

text \<open>Both keys of a pair are read and they are equal.\<close>

definition pair_verified_equal ::
  "SegmentLayer \<Rightarrow> Rowset \<Rightarrow> Rowset \<Rightarrow> RowLocation \<times> RowLocation \<Rightarrow> bool" where
  "pair_verified_equal env dst_rowset src_rowset p =
     (fst (src_read env src_rowset p) = OK \<and> fst (dst_read env dst_rowset p) = OK \<and>
      snd (src_read env src_rowset p) = snd (dst_read env dst_rowset p))"

text \<open>
  The pairs of an input rowset that are subject to the check: those before the first pair
  whose source key cannot be read by row id (\<open>NOT_IMPLEMENTED_ERROR\<close>).
\<close>

definition checked_pairs ::
  "SegmentLayer \<Rightarrow> Rowset \<Rightarrow> (RowLocation \<times> RowLocation) list \<Rightarrow> (RowLocation \<times> RowLocation) list"
  where
  "checked_pairs env src_rowset locations =
     takeWhile (\<lambda>p. fst (src_read env src_rowset p) \<noteq> Error NOT_IMPLEMENTED_ERROR) locations"

text \<open>
  An entry of the location map passes the check: the segments of its rowset load and every
  pair subject to the check is read with equal keys.
\<close>

definition entry_passes ::
  "SegmentLayer \<Rightarrow> Rowset \<Rightarrow> Rowset \<times> (RowLocation \<times> RowLocation) list \<Rightarrow> bool" where
  "entry_passes env dst_rowset e =
     (load_segments env (rs_rowset_id (fst e)) = OK \<and>
      (\<forall>p \<in> set (checked_pairs env (fst e) (snd e)).
         pair_verified_equal env dst_rowset (fst e) p))"

text \<open>
  Every segment load of a check succeeds, and so does every key read of a pair subject to
  the check.
\<close>

definition io_succeeds :: "SegmentLayer \<Rightarrow> Rowset \<Rightarrow> LocationMap \<Rightarrow> bool" where
  "io_succeeds env dst_rowset location_map =
     (load_segments env (rs_rowset_id dst_rowset) = OK \<and>
      (\<forall>e \<in> set location_map.
         load_segments env (rs_rowset_id (fst e)) = OK \<and>
         (\<forall>p \<in> set (checked_pairs env (fst e) (snd e)).
            fst (src_read env (fst e) p) = OK \<and> fst (dst_read env dst_rowset p) = OK)))"

definition failing_env :: SegmentLayer where
  "failing_env = example_env\<lparr>load_segments := (\<lambda>rid. Error IO_ERROR)\<rparr>"

definition output_rowset :: Rowset where
  "output_rowset = example_rowset 8 1 2"

definition example_location_map :: LocationMap where
  "example_location_map =
     [(base_rowset, [(mapped_source, \<lparr>rowset_id = 8, segment_id = 0, row_id = 5\<rparr>)])]"

text \<open>
  A segment layer in which the key at row 5 of the destination rowset differs from the
  key of the source row, and one in which that key cannot be read.
\<close>

definition mismatch_env :: SegmentLayer where
  "mismatch_env =
     example_env\<lparr>read_key_by_rowid := (\<lambda>rid sid r. (OK, if rid = 8 then ''j'' else ''k''))\<rparr>"

definition unreadable_env :: SegmentLayer where
  "unreadable_env =
     example_env\<lparr>read_key_by_rowid :=
                   (\<lambda>rid sid r. (if rid = 8 then Error IO_ERROR else OK, ''k''))\<rparr>"

section \<open>Reconstruction of the rows of a fixed partial update\<close>

text \<open>
  A block is the list of its named columns, a column the list of its values. A read index
  (\<^verbatim>\<open>std::map<uint32_t, uint32_t>\<close>) is the list of its entries: \<open>index_at\<close> is \<^verbatim>\<open>at\<close>, which
  throws on a missing key, and \<open>index_get\<close> is \<^verbatim>\<open>operator[]\<close>, which gives 0 there.
\<close>

type_synonym Block = "(string \<times> field list) list"

type_synonym ReadIndex = "(nat \<times> nat) list"

definition index_at :: "ReadIndex \<Rightarrow> nat \<Rightarrow> nat option" where
  "index_at m idx = map_of m idx"

definition index_get :: "ReadIndex \<Rightarrow> nat \<Rightarrow> nat" where
  "index_get m idx = (case map_of m idx of None \<Rightarrow> 0 | Some row \<Rightarrow> row)"

definition DELETE_SIGN :: string where
  "DELETE_SIGN = ''__DORIS_DELETE_SIGN__''"

text \<open>\<^verbatim>\<open>BaseTablet::get_delete_sign_column_data\<close>: the data of the delete sign column, or null.\<close>

definition get_delete_sign_column_data :: "Block \<Rightarrow> nat \<Rightarrow> field list option" where
  "get_delete_sign_column_data block rows_at_least =
     (case find (\<lambda>c. fst c = DELETE_SIGN) block of
        None \<Rightarrow> None
      | Some delete_sign_column \<Rightarrow>
          if rows_at_least \<le> length (snd delete_sign_column)
          then Some (snd delete_sign_column) else None)"

text \<open>A delete sign is an 8-bit integer; the row is deleted when it is not 0.\<close>

definition sign_set :: "field \<Rightarrow> bool" where
  "sign_set f = (case f of FInt n \<Rightarrow> n \<noteq> 0 | _ \<Rightarrow> False)"

text \<open>
  The collaborators of the reconstruction outside the source at hand, taken as parameters:
  what \<^verbatim>\<open>read_columns_by_plan\<close> returns for the update columns of the new rows (status,
  block, read index), what it returns for the missing columns of the old rows, given the
  delete signs of the new rows, and the parsing of the default value of a column
  (\<^verbatim>\<open>from_string\<close> of its type).
\<close>

record PlanReads =
  read_update_columns :: "Status \<times> Block \<times> ReadIndex"
  read_old_columns :: "field list option \<Rightarrow> Status \<times> Block \<times> ReadIndex"
  from_string :: "nat \<Rightarrow> string \<Rightarrow> Status \<times> field"

text \<open>
  \<^verbatim>\<open>BaseTablet::generate_default_value_block\<close>: one column per missing column id, holding
  the parsed default value when the column declares one. The loop returns the first
  status of a parse that is not OK.
\<close>

definition generate_default_value_block ::
  "TabletSchema \<Rightarrow> (nat \<Rightarrow> string \<Rightarrow> Status \<times> field) \<Rightarrow> nat list \<Rightarrow> string list
     \<Rightarrow> Status \<times> field list list" where
  "generate_default_value_block schema parse cids defaults =
     (let parsed =
            map (\<lambda>i. if has_default_value (column schema (cids ! i))
                      then (fst (parse (cids ! i) (defaults ! i)),
                            [snd (parse (cids ! i) (defaults ! i))])
                      else (OK, []))
                [0..<length cids]
      in case find (\<lambda>p. fst p \<noteq> OK) parsed of
           Some p \<Rightarrow> (fst p, [])
         | None \<Rightarrow> (OK, map snd parsed))"

text \<open>
  \<^verbatim>\<open>insert_default\<close> of a column of the output block: null for a nullable column, the
  default of the type otherwise.
\<close>

definition insert_default :: "TabletColumn \<Rightarrow> field" where
  "insert_default rs_column = (if is_nullable rs_column then FNull else type_default rs_column)"

text \<open>What the loop over the missing columns reads.\<close>

record FillContext =
  fc_schema :: TabletSchema
  fc_have_input_seq_column :: bool
  fc_missing_cids :: "nat list"
  fc_new_block_delete_signs :: "field list option"
  fc_old_block_delete_signs :: "field list option"
  fc_old_block :: Block
  fc_read_index_old :: ReadIndex
  fc_default_value_block :: "field list list"

text \<open>
  The body of the loops that build the full block, for the missing column at position \<open>i\<close>
  and the row \<open>idx\<close>: the value inserted, or the exception of \<^verbatim>\<open>read_index_old.at(idx)\<close>.
\<close>

definition missing_cell :: "FillContext \<Rightarrow> nat \<Rightarrow> nat \<Rightarrow> Status \<times> field" where
  "missing_cell ctx i idx =
     (let rs_column = column (fc_schema ctx) (fc_missing_cids ctx ! i);
          new_row_delete_sign =
            (case fc_new_block_delete_signs ctx of
               None \<Rightarrow> False | Some signs \<Rightarrow> sign_set (signs ! idx))
      in
      if new_row_delete_sign then (OK, insert_default rs_column)
      else
        case (case fc_old_block_delete_signs ctx of
                None \<Rightarrow> Some False
              | Some signs \<Rightarrow>
                  map_option (\<lambda>row. sign_set (signs ! row))
                    (index_at (fc_read_index_old ctx) idx)) of
          None \<Rightarrow> (Error FATAL, FNull)
        | Some old_row_delete_sign \<Rightarrow>
            let use_default =
                  (old_row_delete_sign \<and>
                   (\<not> has_sequence_col (fc_schema ctx) \<or>
                    fc_have_input_seq_column ctx \<or> \<not> is_seqeunce_col rs_column))
            in
            if use_default then
              (if has_default_value rs_column
               then (OK, (fc_default_value_block ctx ! i) ! 0)
               else if is_nullable rs_column then (OK, FNull)
               else (OK, type_default rs_column))
            else
              (OK, snd (fc_old_block ctx ! i) ! index_get (fc_read_index_old ctx) idx))"

text \<open>The loop over the rows for one missing column, appending to the column.\<close>

fun fill_missing_rows :: "FillContext \<Rightarrow> nat \<Rightarrow> nat list \<Rightarrow> field list \<Rightarrow> Status \<times> field list"
  where
  "fill_missing_rows ctx i [] mutable_column = (OK, mutable_column)"
| "fill_missing_rows ctx i (idx # idxs) mutable_column =
     (case missing_cell ctx i idx of
        (s, v) \<Rightarrow>
          if s \<noteq> OK then (s, mutable_column)
          else fill_missing_rows ctx i idxs (mutable_column @ [v]))"

text \<open>The loop over the missing columns.\<close>

fun fill_missing_columns ::
  "FillContext \<Rightarrow> nat \<Rightarrow> nat list \<Rightarrow> field list list \<Rightarrow> Status \<times> field list list" where
  "fill_missing_columns ctx update_rows [] full = (OK, full)"
| "fill_missing_columns ctx update_rows (i # is) full =
     (case fill_missing_rows ctx i [0..<update_rows] (full ! (fc_missing_cids ctx ! i)) of
        (s, col) \<Rightarrow>
          if s \<noteq> OK then (s, full)
          else fill_missing_columns ctx update_rows is
                 (full[fc_missing_cids ctx ! i := col]))"

text \<open>The loop that copies the update columns of the new rows into the full block.\<close>

definition insert_update_columns ::
  "nat list \<Rightarrow> Block \<Rightarrow> ReadIndex \<Rightarrow> nat \<Rightarrow> field list list \<Rightarrow> field list list" where
  "insert_update_columns update update_block read_index_update update_rows full =
     foldl (\<lambda>full i.
              full[update ! i :=
                     full ! (update ! i) @
                     map (\<lambda>idx. snd (update_block ! i) ! index_get read_index_update idx)
                         [0..<update_rows]])
           full [0..<length update]"

text \<open>
  \<^verbatim>\<open>BaseTablet::generate_new_block_for_partial_update\<close>: the status and the columns of the
  output block, which is set only when the function succeeds. The columns of the output
  block are indexed by column id.
\<close>

definition generate_new_block_for_partial_update ::
  "TabletSchema \<Rightarrow> PartialUpdateInfo \<Rightarrow> PlanReads \<Rightarrow> field list list
     \<Rightarrow> Status \<times> field list list" where
  "generate_new_block_for_partial_update rowset_schema info reads output_block =
     (let have_input_seq =
            (has_sequence_col rowset_schema \<and>
             sequence_col_idx rowset_schema \<in> set (update_cids info))
      in
      case read_update_columns reads of
        (su, update_block, read_index_update) \<Rightarrow>
          if su \<noteq> OK then (su, output_block)
          else
            let update_rows = length read_index_update;
                full1 = insert_update_columns (update_cids info) update_block
                          read_index_update update_rows output_block;
                new_block_delete_signs =
                  (if has_sequence_col rowset_schema then None
                   else get_delete_sign_column_data update_block update_rows)
            in
            case read_old_columns reads new_block_delete_signs of
              (so, old_block, read_index_old) \<Rightarrow>
                if so \<noteq> OK then (so, output_block)
                else
                  let old_rows = length read_index_old;
                      old_block_delete_signs = get_delete_sign_column_data old_block old_rows
                  in
                  case generate_default_value_block rowset_schema (from_string reads)
                         (missing_cids info) (default_values info) of
                    (sd, default_value_block) \<Rightarrow>
                      if sd \<noteq> OK then (sd, output_block)
                      else if update_rows < old_rows then (Error FATAL, output_block)
                      else
                        case fill_missing_columns
                               \<lparr>fc_schema = rowset_schema,
                                fc_have_input_seq_column = have_input_seq,
                                fc_missing_cids = missing_cids info,
                                fc_new_block_delete_signs = new_block_delete_signs,
                                fc_old_block_delete_signs = old_block_delete_signs,
                                fc_old_block = old_block,
                                fc_read_index_old = read_index_old,
                                fc_default_value_block = default_value_block\<rparr>
                               update_rows [0..<length (missing_cids info)] full1 of
                          (sf, full2) \<Rightarrow>
                            if sf \<noteq> OK then (sf, output_block) else (OK, full2))"

definition example_column :: "string \<Rightarrow> field \<Rightarrow> TabletColumn" where
  "example_column n d =
     \<lparr>col_name = n, col_length = 4, has_default_value = False, is_nullable = False,
      is_seqeunce_col = False, type_default = d\<rparr>"

text \<open>The table of the examples: key \<open>k\<close>, values \<open>c1\<close> and \<open>c2\<close>, and the delete sign.\<close>

definition partial_update_schema :: TabletSchema where
  "partial_update_schema =
     \<lparr>columns = [example_column ''k'' (FInt 0), example_column ''c1'' (FStr ''''),
                 example_column ''c2'' (FStr ''''), example_column DELETE_SIGN (FInt 0)],
      has_sequence_col = False, sequence_col_idx = 0, cluster_key_uids = []\<rparr>"

text \<open>
  An update of \<open>c2\<close> for the key 1, over the old row (1, a, b): the old row is read with
  the given delete sign.
\<close>

definition update_c2_info :: PartialUpdateInfo where
  "update_c2_info =
     \<lparr>partial_update_mode = UPDATE_FIXED_COLUMNS, update_cids = [0, 2],
      missing_cids = [1, 3], default_values = ['''', ''''],
      max_version_in_flush_phase = 0\<rparr>"

definition update_c2_reads :: "int \<Rightarrow> PlanReads" where
  "update_c2_reads old_sign =
     \<lparr>read_update_columns = (OK, [(''k'', [FInt 1]), (''c2'', [FStr ''z''])], [(0, 0)]),
      read_old_columns =
        (\<lambda>signs. (OK, [(''c1'', [FStr ''a'']), (DELETE_SIGN, [FInt old_sign])], [(0, 0)])),
      from_string = (\<lambda>cid s. (OK, FStr s))\<rparr>"

text \<open>A partial update that sets the delete sign of the key 1, over the old row (1, a, b).\<close>

definition delete_key_info :: PartialUpdateInfo where
  "delete_key_info =
     \<lparr>partial_update_mode = UPDATE_FIXED_COLUMNS, update_cids = [0, 3],
      missing_cids = [1, 2], default_values = ['''', ''''],
      max_version_in_flush_phase = 0\<rparr>"

definition delete_key_reads :: PlanReads where
  "delete_key_reads =
     \<lparr>read_update_columns = (OK, [(''k'', [FInt 1]), (DELETE_SIGN, [FInt 1])], [(0, 0)]),
      read_old_columns =
        (\<lambda>signs. (OK, [(''c1'', [FStr ''a'']), (''c2'', [FStr ''b'']),
                         (DELETE_SIGN, [FInt 0])], [(0, 0)])),
      from_string = (\<lambda>cid s. (OK, FStr s))\<rparr>"

definition empty_block :: "field list list" where
  "empty_block = [[], [], [], []]"

section \<open>Properties of the delete bitmap operations\<close>

lemma set_rows_add: "set (rows_add r rows) = insert r (set rows)"
  by (induction rows) auto

lemma contains_Nil [simp]: "contains [] k r = False"
  by (simp add: contains_def)

lemma contains_Cons [simp]:
  "contains (e # bm) k r \<longleftrightarrow> (fst e = k \<and> r \<in> set (snd e)) \<or> contains bm k r"
  by (simp add: contains_def)

lemma contains_key_Nil [simp]: "contains_key [] k = False"
  by (simp add: contains_key_def)

lemma contains_key_Cons [simp]:
  "contains_key (e # bm) k \<longleftrightarrow> fst e = k \<or> contains_key bm k"
  by (simp add: contains_key_def)

lemma contains_add:
  "contains (add k r bm) k' r' \<longleftrightarrow> contains bm k' r' \<or> (k' = k \<and> r' = r)"
  by (induction bm) (auto simp: set_rows_add split: if_splits)

lemma contains_key_add:
  "contains_key (add k r bm) k' \<longleftrightarrow> contains_key bm k' \<or> k' = k"
  by (induction bm) (auto split: if_splits)

lemma contains_remove:
  "contains (remove lo hi bm) k r \<longleftrightarrow> contains bm k r \<and> \<not> in_range lo hi k"
  unfolding remove_def by (induction bm) auto

lemma contains_key_remove:
  "contains_key (remove lo hi bm) k \<longleftrightarrow> contains_key bm k \<and> \<not> in_range lo hi k"
  unfolding remove_def by (induction bm) auto

lemma contains_subset:
  "contains (subset lo hi bm) k r \<longleftrightarrow> contains bm k r \<and> in_range lo hi k"
  unfolding subset_def by (induction bm) auto

lemma set_set_insert: "set (set_insert x xs) = insert x (set xs)"
  by (auto simp: set_insert_def)

lemma set_foldl_set_insert:
  "set (foldl (\<lambda>acc x. if P x then set_insert x acc else acc) acc xs)
     = set acc \<union> {x \<in> set xs. P x}"
  by (induction xs arbitrary: acc) (auto simp: set_set_insert)

lemma contains_key_add_sentinel:
  "contains_key (add_sentinel_mark_to_delete_bitmap bm ids) k \<longleftrightarrow>
     contains_key bm k \<or>
     (\<exists>id \<in> set ids. k = (id, INVALID_SEGMENT_ID, TEMP_VERSION_COMMON))"
  unfolding add_sentinel_mark_to_delete_bitmap_def
  by (induction ids arbitrary: bm) (auto simp: contains_key_add)

lemma contains_add_sentinel:
  "contains (add_sentinel_mark_to_delete_bitmap bm ids) k r \<longleftrightarrow>
     contains bm k r \<or>
     (\<exists>id \<in> set ids. k = (id, INVALID_SEGMENT_ID, TEMP_VERSION_COMMON)
                      \<and> r = ROWSET_SENTINEL_MARK)"
  unfolding add_sentinel_mark_to_delete_bitmap_def
  by (induction ids arbitrary: bm) (auto simp: contains_add)

section \<open>Tablet state transitions\<close>

text \<open>
  C10. \<^verbatim>\<open>set_tablet_state\<close> refuses to leave \<open>TABLET_SHUTDOWN\<close>: from that state a request
  for any other state returns an error and leaves the tablet state as it was; every other
  call stores the requested state and returns OK.
\<close>

theorem set_tablet_state_shutdown_terminal:
  "(tablet_state m = TABLET_SHUTDOWN \<and> s \<noteq> TABLET_SHUTDOWN \<longrightarrow>
      fst (set_tablet_state m s) \<noteq> OK \<and> snd (set_tablet_state m s) = m) \<and>
   (\<not> (tablet_state m = TABLET_SHUTDOWN \<and> s \<noteq> TABLET_SHUTDOWN) \<longrightarrow>
      fst (set_tablet_state m s) = OK \<and>
      tablet_state (snd (set_tablet_state m s)) = s)"
  by (simp add: set_tablet_state_def)

theorem set_tablet_state_shutdown_terminal_witness:
  "fst (set_tablet_state (example_meta TABLET_SHUTDOWN) TABLET_RUNNING) \<noteq> OK \<and>
   snd (set_tablet_state (example_meta TABLET_SHUTDOWN) TABLET_RUNNING)
     = example_meta TABLET_SHUTDOWN \<and>
   fst (set_tablet_state (example_meta TABLET_RUNNING) TABLET_NOTREADY) = OK \<and>
   tablet_state (snd (set_tablet_state (example_meta TABLET_RUNNING) TABLET_NOTREADY))
     = TABLET_NOTREADY"
  using set_tablet_state_shutdown_terminal [of "example_meta TABLET_SHUTDOWN" TABLET_RUNNING]
        set_tablet_state_shutdown_terminal [of "example_meta TABLET_RUNNING" TABLET_NOTREADY]
  by (simp add: example_meta_def)

section \<open>Auto-tuning of the compaction budget\<close>

text \<open>
  C9. After one round the budget of the next round follows the queue depth: an empty
  queue doubles it, bounded by the ceiling; a depth at or above the high-water mark halves
  it, bounded by the floor; otherwise it is unchanged. With ceiling 64, floor 1 and a
  high-water mark above 3 and at most 5 this gives the scenarios of the spec:
  (1, 1) stays 1, (4, 0) becomes 8, (64, 0) stays 64, (8, 3) stays 8, (8, 5) becomes 4.
\<close>

theorem adjust_compaction_num_per_round_scenarios:
  assumes "budget_ceiling cfg = 64" and "budget_floor cfg = 1"
    and "3 < queue_high_water cfg" and "queue_high_water cfg \<le> 5"
  shows "adjust_compaction_num_per_round cfg b 0 = min (2 * b) 64 \<and>
    (0 < q \<and> queue_high_water cfg \<le> q \<longrightarrow>
       adjust_compaction_num_per_round cfg b q = max (b div 2) 1) \<and>
    (0 < q \<and> q < queue_high_water cfg \<longrightarrow>
       adjust_compaction_num_per_round cfg b q = b) \<and>
    adjust_compaction_num_per_round cfg 1 1 = 1 \<and>
    adjust_compaction_num_per_round cfg 4 0 = 8 \<and>
    adjust_compaction_num_per_round cfg 64 0 = 64 \<and>
    adjust_compaction_num_per_round cfg 8 3 = 8 \<and>
    adjust_compaction_num_per_round cfg 8 5 = 4"
  using assms by (simp add: adjust_compaction_num_per_round_def mult.commute)

theorem adjust_compaction_num_per_round_scenarios_witness:
  "adjust_compaction_num_per_round
     \<lparr>budget_ceiling = 64, budget_floor = 1, queue_high_water = 4\<rparr> 8 5 = 4 \<and>
   adjust_compaction_num_per_round
     \<lparr>budget_ceiling = 64, budget_floor = 1, queue_high_water = 4\<rparr> 8 3 = 8 \<and>
   adjust_compaction_num_per_round
     \<lparr>budget_ceiling = 64, budget_floor = 1, queue_high_water = 4\<rparr> 6 4 = 3 \<and>
   adjust_compaction_num_per_round
     \<lparr>budget_ceiling = 64, budget_floor = 1, queue_high_water = 4\<rparr> 64 0 = 64"
  using adjust_compaction_num_per_round_scenarios
          [of "\<lparr>budget_ceiling = 64, budget_floor = 1, queue_high_water = 4\<rparr>" 6 4]
  by simp

section \<open>The sentinel check\<close>

text \<open>
  C2. \<^verbatim>\<open>check_delete_bitmap_correctness\<close> returns OK exactly when every rowset id of the
  given set has its sentinel key (rowset id, \<open>INVALID_SEGMENT_ID\<close>, \<open>TEMP_VERSION_COMMON\<close>)
  in the delete bitmap; when some id lacks it, the result is an internal error.
\<close>

theorem check_delete_bitmap_correctness_iff:
  "(check_delete_bitmap_correctness bm ids = OK \<longleftrightarrow>
      (\<forall>id \<in> set ids. contains_key bm (id, INVALID_SEGMENT_ID, TEMP_VERSION_COMMON))) \<and>
   ((\<exists>id \<in> set ids. \<not> contains_key bm (id, INVALID_SEGMENT_ID, TEMP_VERSION_COMMON)) \<longrightarrow>
      check_delete_bitmap_correctness bm ids = Error INTERNAL_ERROR)"
proof -
  let ?missing = "foldl (\<lambda>acc rowsetid.
                     if \<not> contains_key bm (rowsetid, INVALID_SEGMENT_ID, TEMP_VERSION_COMMON)
                     then set_insert rowsetid acc else acc) [] ids"
  have "set ?missing =
          {id \<in> set ids. \<not> contains_key bm (id, INVALID_SEGMENT_ID, TEMP_VERSION_COMMON)}"
    by (simp add: set_foldl_set_insert)
  then have "?missing = [] \<longleftrightarrow>
          (\<forall>id \<in> set ids. contains_key bm (id, INVALID_SEGMENT_ID, TEMP_VERSION_COMMON))"
    unfolding set_empty [symmetric] by auto
  then show ?thesis
    by (auto simp: check_delete_bitmap_correctness_def Let_def)
qed

theorem check_delete_bitmap_correctness_iff_witness:
  "check_delete_bitmap_correctness (add_sentinel_mark_to_delete_bitmap [] [1, 2]) [1, 2] = OK \<and>
   check_delete_bitmap_correctness (add_sentinel_mark_to_delete_bitmap [] [1]) [1, 2]
     = Error INTERNAL_ERROR"
  using check_delete_bitmap_correctness_iff
          [of "add_sentinel_mark_to_delete_bitmap [] [1, 2]" "[1, 2]"]
        check_delete_bitmap_correctness_iff
          [of "add_sentinel_mark_to_delete_bitmap [] [1]" "[1, 2]"]
  by (simp add: contains_key_add_sentinel)

section \<open>Values of the missing columns\<close>

lemma fill_missing_rows_OK:
  assumes "fill_missing_rows ctx i idxs col = (OK, col')"
  shows "col' = col @ map (\<lambda>idx. snd (missing_cell ctx i idx)) idxs \<and>
         (\<forall>idx \<in> set idxs. fst (missing_cell ctx i idx) = OK)"
  using assms
proof (induction idxs arbitrary: col)
  case Nil
  then show ?case by simp
next
  case (Cons idx idxs)
  obtain s v where c: "missing_cell ctx i idx = (s, v)"
    by (cases "missing_cell ctx i idx")
  have s: "s = OK"
    using Cons.prems c by (auto split: if_splits)
  then have "fill_missing_rows ctx i idxs (col @ [v]) = (OK, col')"
    using Cons.prems c by simp
  from Cons.IH [OF this] show ?case
    using c s by simp
qed

lemma fill_missing_columns_OK:
  assumes "fill_missing_columns ctx n is full = (OK, full')"
    and "distinct (map (\<lambda>i. fc_missing_cids ctx ! i) is)"
    and "\<forall>i \<in> set is. fc_missing_cids ctx ! i < length full"
  shows "(\<forall>i \<in> set is.
            full' ! (fc_missing_cids ctx ! i) =
              full ! (fc_missing_cids ctx ! i) @
                map (\<lambda>idx. snd (missing_cell ctx i idx)) [0..<n] \<and>
            (\<forall>idx < n. fst (missing_cell ctx i idx) = OK)) \<and>
         length full' = length full \<and>
         (\<forall>c. c \<notin> (\<lambda>i. fc_missing_cids ctx ! i) ` set is \<longrightarrow> full' ! c = full ! c)"
  using assms
proof (induction "is" arbitrary: full)
  case Nil
  then show ?case by simp
next
  case (Cons i "is")
  let ?cid = "fc_missing_cids ctx ! i"
  obtain s col where c: "fill_missing_rows ctx i [0..<n] (full ! ?cid) = (s, col)"
    by (cases "fill_missing_rows ctx i [0..<n] (full ! ?cid)")
  have s: "s = OK"
    using Cons.prems(1) c by (auto split: if_splits)
  have rec: "fill_missing_columns ctx n is (full[?cid := col]) = (OK, full')"
    using Cons.prems(1) c s by simp
  have d: "distinct (map (\<lambda>i. fc_missing_cids ctx ! i) is)"
    and notin: "?cid \<notin> (\<lambda>i. fc_missing_cids ctx ! i) ` set is"
    using Cons.prems(2) by auto
  have len: "\<forall>i \<in> set is. fc_missing_cids ctx ! i < length (full[?cid := col])"
    using Cons.prems(3) by simp
  note IH = Cons.IH [OF rec d len]
  have col: "col = full ! ?cid @ map (\<lambda>idx. snd (missing_cell ctx i idx)) [0..<n]"
    and oks: "\<forall>idx < n. fst (missing_cell ctx i idx) = OK"
    using fill_missing_rows_OK [OF c [unfolded s]] by auto
  have here: "full' ! ?cid = col"
    using IH notin Cons.prems(3) by simp
  have others: "\<forall>j \<in> set is. (full[?cid := col]) ! (fc_missing_cids ctx ! j)
                   = full ! (fc_missing_cids ctx ! j)"
    using notin by (metis image_eqI nth_list_update_neq)
  show ?case
  proof (intro conjI ballI allI impI)
    fix j assume j: "j \<in> set (i # is)"
    show "full' ! (fc_missing_cids ctx ! j) =
              full ! (fc_missing_cids ctx ! j) @
                map (\<lambda>idx. snd (missing_cell ctx j idx)) [0..<n]"
    proof (cases "j = i")
      case True
      then show ?thesis using here col by simp
    next
      case False
      then have "j \<in> set is" using j by simp
      then show ?thesis using IH others by simp
    qed
    fix idx assume "idx < n"
    then show "fst (missing_cell ctx j idx) = OK"
      using j oks IH by auto
  next
    show "length full' = length full" using IH by simp
  next
    fix c assume "c \<notin> (\<lambda>i. fc_missing_cids ctx ! i) ` set (i # is)"
    then have "c \<noteq> ?cid" and "c \<notin> (\<lambda>i. fc_missing_cids ctx ! i) ` set is"
      by auto
    then show "full' ! c = full ! c"
      using IH by simp
  qed
qed

lemma insert_update_columns_other:
  assumes "cid \<notin> set update"
  shows "insert_update_columns update update_block read_index_update n full ! cid = full ! cid"
proof -
  have "foldl (\<lambda>full i.
              full[update ! i :=
                     full ! (update ! i) @
                     map (\<lambda>idx. snd (update_block ! i) ! index_get read_index_update idx)
                         [0..<n]]) full is ! cid = full ! cid"
    if "\<forall>i \<in> set is. i < length update" for "is"
    using that
  proof (induction "is" arbitrary: full)
    case Nil
    then show ?case by simp
  next
    case (Cons i "is")
    then have "update ! i \<noteq> cid"
      using assms by (metis list.set_intros(1) nth_mem)
    then show ?case using Cons by simp
  qed
  then show ?thesis
    by (simp add: insert_update_columns_def)
qed

lemma length_insert_update_columns:
  "length (insert_update_columns update update_block read_index_update n full) = length full"
proof -
  have "length (foldl (\<lambda>full i.
              full[update ! i :=
                     full ! (update ! i) @
                     map (\<lambda>idx. snd (update_block ! i) ! index_get read_index_update idx)
                         [0..<n]]) full is) = length full" for "is"
    by (induction "is" arbitrary: full) simp_all
  then show ?thesis
    by (simp add: insert_update_columns_def)
qed

lemma generate_default_value_block_OK:
  assumes "generate_default_value_block schema parse cids defaults = (OK, dvb)"
    and "i < length cids" and "has_default_value (column schema (cids ! i))"
  shows "dvb ! i = [snd (parse (cids ! i) (defaults ! i))]"
proof -
  let ?parsed = "map (\<lambda>i. if has_default_value (column schema (cids ! i))
                      then (fst (parse (cids ! i) (defaults ! i)),
                            [snd (parse (cids ! i) (defaults ! i))])
                      else (OK, []))
                [0..<length cids]"
  have "dvb = map snd ?parsed"
    using assms(1)
    by (auto simp: generate_default_value_block_def Let_def find_Some_iff
             split: option.splits if_splits)
  then show ?thesis using assms(2,3) by simp
qed


lemma generate_new_block_cell:
  assumes ok: "generate_new_block_for_partial_update schema info reads output_block = (OK, full)"
    and ru: "read_update_columns reads = (su, update_block, read_index_update)"
    and ns: "new_signs = (if has_sequence_col schema then None
                          else get_delete_sign_column_data update_block
                                 (length read_index_update))"
    and ro: "read_old_columns reads new_signs = (so, old_block, read_index_old)"
    and dist: "distinct (missing_cids info)"
    and rng: "\<forall>cid \<in> set (missing_cids info).
                cid < length output_block \<and> cid \<notin> set (update_cids info)"
    and i: "i < length (missing_cids info)" and idx: "idx < length read_index_update"
  shows "\<exists>dvb.
     generate_default_value_block schema (from_string reads) (missing_cids info)
       (default_values info) = (OK, dvb) \<and>
     missing_cell
       \<lparr>fc_schema = schema,
        fc_have_input_seq_column =
          (has_sequence_col schema \<and> sequence_col_idx schema \<in> set (update_cids info)),
        fc_missing_cids = missing_cids info,
        fc_new_block_delete_signs = new_signs,
        fc_old_block_delete_signs =
          get_delete_sign_column_data old_block (length read_index_old),
        fc_old_block = old_block,
        fc_read_index_old = read_index_old,
        fc_default_value_block = dvb\<rparr> i idx
     = (OK, (full ! (missing_cids info ! i)) !
              (length (output_block ! (missing_cids info ! i)) + idx))"
proof -
  let ?n = "length read_index_update"
  let ?full1 = "insert_update_columns (update_cids info) update_block read_index_update ?n
                  output_block"
  obtain sd dvb where gd: "generate_default_value_block schema (from_string reads)
                             (missing_cids info) (default_values info) = (sd, dvb)"
    by (cases "generate_default_value_block schema (from_string reads)
                 (missing_cids info) (default_values info)")
  let ?ctx = "\<lparr>fc_schema = schema,
        fc_have_input_seq_column =
          (has_sequence_col schema \<and> sequence_col_idx schema \<in> set (update_cids info)),
        fc_missing_cids = missing_cids info,
        fc_new_block_delete_signs = new_signs,
        fc_old_block_delete_signs =
          get_delete_sign_column_data old_block (length read_index_old),
        fc_old_block = old_block,
        fc_read_index_old = read_index_old,
        fc_default_value_block = dvb\<rparr>"
  obtain sf full2 where fm: "fill_missing_columns ?ctx ?n [0..<length (missing_cids info)] ?full1
                               = (sf, full2)"
    by (cases "fill_missing_columns ?ctx ?n [0..<length (missing_cids info)] ?full1")
  have all: "su = OK \<and> so = OK \<and> sd = OK \<and> sf = OK \<and> full = full2"
    using ok ru ro gd fm ns
    by (simp add: generate_new_block_for_partial_update_def Let_def split: if_splits)
  have m: "map (\<lambda>i. fc_missing_cids ?ctx ! i) [0..<length (missing_cids info)] = missing_cids info"
    by (simp add: map_nth)
  have d: "distinct (map (\<lambda>i. fc_missing_cids ?ctx ! i) [0..<length (missing_cids info)])"
    unfolding m by (rule dist)
  have l: "\<forall>i \<in> set [0..<length (missing_cids info)]. fc_missing_cids ?ctx ! i < length ?full1"
    using rng by (simp add: length_insert_update_columns)
  have fm': "fill_missing_columns ?ctx ?n [0..<length (missing_cids info)] ?full1 = (OK, full)"
    using fm all by simp
  note r = fill_missing_columns_OK [OF fm' d l, THEN conjunct1, rule_format, of i]
  have cidp: "missing_cids info ! i \<in> set (missing_cids info)"
    using i by simp
  have f1: "?full1 ! (missing_cids info ! i) = output_block ! (missing_cids info ! i)"
    using rng cidp by (intro insert_update_columns_other) blast
  have col: "full ! (missing_cids info ! i) =
               output_block ! (missing_cids info ! i) @
                 map (\<lambda>idx. snd (missing_cell ?ctx i idx)) [0..<?n]"
    using r i f1 by simp
  have okc: "fst (missing_cell ?ctx i idx) = OK"
    using r i idx by simp
  have "(full ! (missing_cids info ! i)) ! (length (output_block ! (missing_cids info ! i)) + idx)
          = snd (missing_cell ?ctx i idx)"
    using idx by (simp add: col nth_append)
  then have "missing_cell ?ctx i idx
     = (OK, (full ! (missing_cids info ! i)) !
              (length (output_block ! (missing_cids info ! i)) + idx))"
    using okc by (metis prod.collapse)
  then show ?thesis using gd all by blast
qed


text \<open>
  C4 (as amended). For a fixed partial update whose reconstruction succeeds, the value of
  a missing column in a reconstructed row is the value of the old row when neither the new
  nor the old row carries a delete sign. When the old row carries a delete sign (and the
  new row none) it is the declared default value of the column if it has one, null if the
  column is nullable, and the default of the type otherwise: always for a schema without
  sequence column, and with a sequence column unless the column is the sequence column and
  the update does not supply it, in which case the value of the old row is kept. When the
  new row itself carries a delete sign (looked at only without sequence column) it is
  null for a nullable column and the default of the type otherwise.
\<close>

theorem missing_column_value:
  assumes "generate_new_block_for_partial_update schema info reads output_block = (OK, full)"
    and "read_update_columns reads = (su, update_block, read_index_update)"
    and "new_signs = (if has_sequence_col schema then None
                      else get_delete_sign_column_data update_block
                             (length read_index_update))"
    and "read_old_columns reads new_signs = (so, old_block, read_index_old)"
    and "distinct (missing_cids info)"
    and "\<forall>cid \<in> set (missing_cids info).
           cid < length output_block \<and> cid \<notin> set (update_cids info)"
    and "i < length (missing_cids info)" and "idx < length read_index_update"
    and "rs_column = column schema (missing_cids info ! i)"
    and "cell = (full ! (missing_cids info ! i)) !
                  (length (output_block ! (missing_cids info ! i)) + idx)"
    and "new_deleted = (case new_signs of None \<Rightarrow> False | Some signs \<Rightarrow> sign_set (signs ! idx))"
    and "old_deleted =
           (case get_delete_sign_column_data old_block (length read_index_old) of
              None \<Rightarrow> False
            | Some signs \<Rightarrow> sign_set (signs ! index_get read_index_old idx))"
    and "old_value = snd (old_block ! i) ! index_get read_index_old idx"
    and "fallback =
           (if has_default_value rs_column
            then snd (from_string reads (missing_cids info ! i) (default_values info ! i))
            else if is_nullable rs_column then FNull else type_default rs_column)"
  shows "(new_deleted \<longrightarrow> cell = insert_default rs_column) \<and>
         (\<not> new_deleted \<and> \<not> old_deleted \<longrightarrow> cell = old_value) \<and>
         (\<not> new_deleted \<and> old_deleted \<and>
          (\<not> has_sequence_col schema \<or> sequence_col_idx schema \<in> set (update_cids info) \<or>
           \<not> is_seqeunce_col rs_column) \<longrightarrow> cell = fallback) \<and>
         (\<not> new_deleted \<and> old_deleted \<and> has_sequence_col schema \<and>
          sequence_col_idx schema \<notin> set (update_cids info) \<and> is_seqeunce_col rs_column \<longrightarrow>
            cell = old_value)"
proof -
  obtain dvb where gd: "generate_default_value_block schema (from_string reads)
                          (missing_cids info) (default_values info) = (OK, dvb)"
    and mc: "missing_cell
       \<lparr>fc_schema = schema,
        fc_have_input_seq_column =
          (has_sequence_col schema \<and> sequence_col_idx schema \<in> set (update_cids info)),
        fc_missing_cids = missing_cids info,
        fc_new_block_delete_signs = new_signs,
        fc_old_block_delete_signs =
          get_delete_sign_column_data old_block (length read_index_old),
        fc_old_block = old_block,
        fc_read_index_old = read_index_old,
        fc_default_value_block = dvb\<rparr> i idx = (OK, cell)"
    using generate_new_block_cell [OF assms(1-8)] assms(10) by blast
  have dv: "has_default_value rs_column \<Longrightarrow>
              (dvb ! i) ! 0 = snd (from_string reads (missing_cids info ! i)
                                     (default_values info ! i))"
    using generate_default_value_block_OK [OF gd assms(7)] assms(9) by simp
  have ig: "index_at read_index_old idx = Some row \<Longrightarrow> index_get read_index_old idx = row"
    for row
    by (simp add: index_at_def index_get_def)
  show ?thesis
  proof (cases new_deleted)
    case True
    then show ?thesis
      using mc assms(9,11) by (auto simp: missing_cell_def Let_def)
  next
    case nd: False
    show ?thesis
    proof (cases "get_delete_sign_column_data old_block (length read_index_old)")
      case None
      then show ?thesis
        using mc nd assms(9,11,12,13) by (auto simp: missing_cell_def Let_def)
    next
      case (Some signs)
      show ?thesis
      proof (cases "index_at read_index_old idx")
        case None
        then show ?thesis
          using mc nd Some assms(9,11) by (auto simp: missing_cell_def Let_def)
      next
        case (Some row)
        note row = this
        have od: "old_deleted = sign_set (signs ! row)"
          using assms(12) \<open>get_delete_sign_column_data old_block (length read_index_old)
                             = Some signs\<close> ig [OF row]
          by simp
        have ov: "old_value = snd (old_block ! i) ! row"
          using assms(13) ig [OF row] by simp
        show ?thesis
          using mc nd row od ov dv assms(9,11,14) ig [OF row]
                \<open>get_delete_sign_column_data old_block (length read_index_old) = Some signs\<close>
          by (auto simp: missing_cell_def Let_def split: if_splits)
      qed
    qed
  qed
qed


lemma example_update_c2:
  "generate_new_block_for_partial_update partial_update_schema update_c2_info
     (update_c2_reads old_sign) empty_block
   = (OK, [[FInt 1], [if old_sign = 0 then FStr ''a'' else FStr ''''], [FStr ''z''],
           [FInt 0]])"
  by (simp add: generate_new_block_for_partial_update_def partial_update_schema_def
       update_c2_info_def update_c2_reads_def empty_block_def Let_def
       insert_update_columns_def index_get_def index_at_def get_delete_sign_column_data_def
       DELETE_SIGN_def generate_default_value_block_def column_def example_column_def
       missing_cell_def sign_set_def upt_rec [of 0 "Suc 0"] upt_rec [of 0 2] upt_rec [of 1 2]
       upt_rec [of "Suc 0" 2])


theorem missing_column_value_witness:
  "generate_new_block_for_partial_update partial_update_schema update_c2_info
     (update_c2_reads 0) empty_block
     = (OK, [[FInt 1], [FStr ''a''], [FStr ''z''], [FInt 0]]) \<and>
   generate_new_block_for_partial_update partial_update_schema update_c2_info
     (update_c2_reads 1) empty_block
     = (OK, [[FInt 1], [FStr ''''], [FStr ''z''], [FInt 0]]) \<and>
   ([[FInt 1], [FStr ''a''], [FStr ''z''], [FInt 0]] ! 1) ! 0
     = snd ([(''c1'', [FStr ''a'']), (DELETE_SIGN, [FInt 0])] ! 0) ! 0 \<and>
   ([[FInt 1], [FStr ''''], [FStr ''z''], [FInt 0]] ! 1) ! 0
     = type_default (example_column ''c1'' (FStr ''''))"
proof -
  have e0: "generate_new_block_for_partial_update partial_update_schema update_c2_info
     (update_c2_reads 0) empty_block
     = (OK, [[FInt 1], [FStr ''a''], [FStr ''z''], [FInt 0]])"
    using example_update_c2 [of 0] by simp
  have e1: "generate_new_block_for_partial_update partial_update_schema update_c2_info
     (update_c2_reads 1) empty_block
     = (OK, [[FInt 1], [FStr ''''], [FStr ''z''], [FInt 0]])"
    using example_update_c2 [of 1] by simp
  have ru: "read_update_columns (update_c2_reads s)
              = (OK, [(''k'', [FInt 1]), (''c2'', [FStr ''z''])], [(0, 0)])" for s
    by (simp add: update_c2_reads_def)
  have ns: "None = (if has_sequence_col partial_update_schema then None
                    else get_delete_sign_column_data [(''k'', [FInt 1]), (''c2'', [FStr ''z''])]
                           (length [(0::nat, 0::nat)]))"
    by (simp add: get_delete_sign_column_data_def DELETE_SIGN_def)
  have ro: "read_old_columns (update_c2_reads s) None
              = (OK, [(''c1'', [FStr ''a'']), (DELETE_SIGN, [FInt s])], [(0, 0)])" for s
    by (simp add: update_c2_reads_def)
  have d: "distinct (missing_cids update_c2_info)"
    by (simp add: update_c2_info_def)
  have r: "\<forall>cid \<in> set (missing_cids update_c2_info).
             cid < length empty_block \<and> cid \<notin> set (update_cids update_c2_info)"
    by (simp add: update_c2_info_def empty_block_def)
  have i: "0 < length (missing_cids update_c2_info)"
    by (simp add: update_c2_info_def)
  have x: "0 < length [(0::nat, 0::nat)]"
    by simp
  note t0 = missing_column_value [OF e0 ru ns ro d r i x refl refl refl refl refl refl]
  note t1 = missing_column_value [OF e1 ru ns ro d r i x refl refl refl refl refl refl]
  have a: "([[FInt 1], [FStr ''a''], [FStr ''z''], [FInt 0]] ! 1) ! 0
     = snd ([(''c1'', [FStr ''a'']), (DELETE_SIGN, [FInt 0])] ! 0) ! 0"
    using t0 [THEN conjunct2, THEN conjunct1]
    by (simp add: get_delete_sign_column_data_def DELETE_SIGN_def sign_set_def index_get_def
         update_c2_info_def empty_block_def)
  have b: "([[FInt 1], [FStr ''''], [FStr ''z''], [FInt 0]] ! 1) ! 0
     = type_default (example_column ''c1'' (FStr ''''))"
    using t1 [THEN conjunct2, THEN conjunct2, THEN conjunct1]
    by (simp add: get_delete_sign_column_data_def DELETE_SIGN_def sign_set_def index_get_def
         update_c2_info_def empty_block_def partial_update_schema_def column_def
         example_column_def)
  show ?thesis
    using e0 e1 a b by simp
qed

lemma example_delete_key:
  "generate_new_block_for_partial_update partial_update_schema delete_key_info
     delete_key_reads empty_block
   = (OK, [[FInt 1], [FStr ''''], [FStr ''''], [FInt 1]])"
  by (simp add: generate_new_block_for_partial_update_def partial_update_schema_def
       delete_key_info_def delete_key_reads_def empty_block_def Let_def
       insert_update_columns_def index_get_def index_at_def get_delete_sign_column_data_def
       DELETE_SIGN_def generate_default_value_block_def column_def example_column_def
       missing_cell_def sign_set_def insert_default_def
       upt_rec [of 0 "Suc 0"] upt_rec [of 0 2] upt_rec [of 1 2] upt_rec [of "Suc 0" 2])

text \<open>
  A partial update that sets the delete sign of a key whose old row (1, a, b) carries no
  delete sign: the missing columns \<open>c1\<close> and \<open>c2\<close> of the reconstructed row hold the
  default of their type, not the values of the old row.
\<close>

theorem missing_column_from_old_row_counterexample:
  "read_old_columns delete_key_reads (Some [FInt 1])
     = (OK, [(''c1'', [FStr ''a'']), (''c2'', [FStr ''b'']), (DELETE_SIGN, [FInt 0])],
        [(0, 0)]) \<and>
   generate_new_block_for_partial_update partial_update_schema delete_key_info
     delete_key_reads empty_block
     = (OK, [[FInt 1], [FStr ''''], [FStr ''''], [FInt 1]])"
  using example_delete_key by (simp add: delete_key_reads_def)

section \<open>Migration of the delete marks across a compaction\<close>

lemma in_range_versions:
  "in_range (rid, seg, start_v) (rid, seg, end_v) (rid', seg', v) \<longleftrightarrow>
     rid' = rid \<and> seg' = seg \<and> start_v \<le> v \<and> v < end_v"
  by (auto simp: in_range_def key_le_def key_less_def)

lemma contains_iff_entry:
  "contains bm k r \<longleftrightarrow> (\<exists>e \<in> set bm. fst e = k \<and> r \<in> set (snd e))"
  by (simp add: contains_def list_ex_iff)

lemma convert_rows_output:
  "contains (co_output_rowset_delete_bitmap
               (foldl (convert_marked_row conv rs seg v) out rows)) k r \<longleftrightarrow>
     contains (co_output_rowset_delete_bitmap out) k r \<or>
     (\<exists>row \<in> set rows. \<exists>dst.
        conv \<lparr>rowset_id = rs_rowset_id rs, segment_id = seg, row_id = row\<rparr> = Some dst \<and>
        k = (rowset_id dst, segment_id dst, v) \<and> r = row_id dst)"
proof (induction rows arbitrary: out)
  case Nil
  then show ?case by simp
next
  case (Cons row rows)
  show ?case
    unfolding foldl_Cons Cons.IH
    by (cases "conv \<lparr>rowset_id = rs_rowset_id rs, segment_id = seg, row_id = row\<rparr>")
       (auto simp: convert_marked_row_def Let_def contains_add)
qed

lemma convert_rows_missed:
  "co_missed_rows out = Some m \<Longrightarrow>
   co_missed_rows (foldl (convert_marked_row conv rs seg v) out rows) =
     Some (m \<union> {\<lparr>rowset_id = rs_rowset_id rs, segment_id = seg, row_id = row\<rparr> | row.
                  row \<in> set rows \<and>
                  conv \<lparr>rowset_id = rs_rowset_id rs, segment_id = seg, row_id = row\<rparr> = None})"
proof (induction rows arbitrary: out m)
  case Nil
  then show ?case by simp
next
  case (Cons row rows)
  let ?src = "\<lparr>rowset_id = rs_rowset_id rs, segment_id = seg, row_id = row\<rparr>"
  show ?case
  proof (cases "conv ?src")
    case None
    then have "co_missed_rows (convert_marked_row conv rs seg v out row) = Some (insert ?src m)"
      using Cons.prems by (simp add: convert_marked_row_def Let_def)
    from Cons.IH [OF this] None show ?thesis by auto
  next
    case (Some dst)
    then have "co_missed_rows (convert_marked_row conv rs seg v out row) = Some m"
      using Cons.prems by (simp add: convert_marked_row_def Let_def)
    from Cons.IH [OF this] Some show ?thesis by auto
  qed
qed


lemma foldl_accumulates_or:
  assumes "\<And>out x. P (f out x) \<longleftrightarrow> P out \<or> Q x"
  shows "P (foldl f out xs) \<longleftrightarrow> P out \<or> (\<exists>x \<in> set xs. Q x)"
  by (induction xs arbitrary: out) (auto simp: assms)

lemma foldl_accumulates_union:
  assumes "\<And>out m x. g out = Some m \<Longrightarrow> g (f out x) = Some (m \<union> S x)"
  shows "g out = Some m \<Longrightarrow> g (foldl f out xs) = Some (m \<union> (\<Union>x \<in> set xs. S x))"
proof (induction xs arbitrary: out m)
  case Nil
  then show ?case by simp
next
  case (Cons x xs)
  from Cons.IH [OF assms [OF Cons.prems]] show ?case
    by (simp add: Un_assoc)
qed

lemma convert_segment_output:
  "contains (co_output_rowset_delete_bitmap
               (convert_segment conv start_v end_v input rs out seg)) k r \<longleftrightarrow>
     contains (co_output_rowset_delete_bitmap out) k r \<or>
     (\<exists>v row dst.
        start_v \<le> v \<and> v < end_v \<and>
        contains input (rs_rowset_id rs, seg, v) row \<and>
        conv \<lparr>rowset_id = rs_rowset_id rs, segment_id = seg, row_id = row\<rparr> = Some dst \<and>
        k = (rowset_id dst, segment_id dst, v) \<and> r = row_id dst)"
proof -
  let ?Q = "\<lambda>e. \<exists>row \<in> set (snd e). \<exists>dst.
        conv \<lparr>rowset_id = rs_rowset_id rs, segment_id = seg, row_id = row\<rparr> = Some dst \<and>
        k = (rowset_id dst, segment_id dst, snd (snd (fst e))) \<and> r = row_id dst"
  let ?es = "subset (rs_rowset_id rs, seg, start_v) (rs_rowset_id rs, seg, end_v) input"
  have step: "contains (co_output_rowset_delete_bitmap
                 (foldl (\<lambda>out entry.
                    foldl (convert_marked_row conv rs seg (snd (snd (fst entry)))) out (snd entry))
                  out ?es)) k r \<longleftrightarrow>
              contains (co_output_rowset_delete_bitmap out) k r \<or> (\<exists>e \<in> set ?es. ?Q e)"
    by (rule foldl_accumulates_or) (rule convert_rows_output)
  have "(\<exists>e \<in> set ?es. ?Q e) \<longleftrightarrow>
     (\<exists>v row dst.
        start_v \<le> v \<and> v < end_v \<and>
        contains input (rs_rowset_id rs, seg, v) row \<and>
        conv \<lparr>rowset_id = rs_rowset_id rs, segment_id = seg, row_id = row\<rparr> = Some dst \<and>
        k = (rowset_id dst, segment_id dst, v) \<and> r = row_id dst)"
    (is "?L \<longleftrightarrow> ?R")
  proof
    assume ?L
    then obtain e row dst where e: "e \<in> set input"
      and rng: "in_range (rs_rowset_id rs, seg, start_v) (rs_rowset_id rs, seg, end_v) (fst e)"
      and row: "row \<in> set (snd e)"
      and dst: "conv \<lparr>rowset_id = rs_rowset_id rs, segment_id = seg, row_id = row\<rparr> = Some dst"
      and k: "k = (rowset_id dst, segment_id dst, snd (snd (fst e)))" and r: "r = row_id dst"
      by (auto simp: subset_def)
    obtain rid' seg' v where fe: "fst e = (rid', seg', v)"
      by (cases "fst e")
    from rng fe have eq: "rid' = rs_rowset_id rs" "seg' = seg"
      and v: "start_v \<le> v" "v < end_v"
      by (auto simp: in_range_versions)
    have "contains input (rs_rowset_id rs, seg, v) row"
      using e row fe eq by (auto simp: contains_iff_entry)
    then show ?R using v dst k r fe by auto
  next
    assume ?R
    then obtain v row dst where v: "start_v \<le> v" "v < end_v"
      and c: "contains input (rs_rowset_id rs, seg, v) row"
      and dst: "conv \<lparr>rowset_id = rs_rowset_id rs, segment_id = seg, row_id = row\<rparr> = Some dst"
      and k: "k = (rowset_id dst, segment_id dst, v)" and r: "r = row_id dst"
      by auto
    from c obtain e where e: "e \<in> set input" "fst e = (rs_rowset_id rs, seg, v)"
      "row \<in> set (snd e)"
      by (auto simp: contains_iff_entry)
    have "e \<in> set ?es"
      using e v by (auto simp: subset_def in_range_versions)
    then show ?L using e dst k r by (intro bexI [of _ e]) auto
  qed
  then show ?thesis
    using step by (simp add: convert_segment_def Let_def)
qed


lemma convert_segment_missed:
  assumes "co_missed_rows out = Some m"
  shows "co_missed_rows (convert_segment conv start_v end_v input rs out seg) =
     Some (m \<union> {src. rowset_id src = rs_rowset_id rs \<and> segment_id src = seg \<and>
                    (\<exists>v. start_v \<le> v \<and> v < end_v \<and>
                         contains input (rs_rowset_id rs, seg, v) (row_id src)) \<and>
                    conv src = None})"
proof -
  let ?S = "\<lambda>e. {\<lparr>rowset_id = rs_rowset_id rs, segment_id = seg, row_id = row\<rparr> | row.
                  row \<in> set (snd e) \<and>
                  conv \<lparr>rowset_id = rs_rowset_id rs, segment_id = seg, row_id = row\<rparr> = None}"
  let ?es = "subset (rs_rowset_id rs, seg, start_v) (rs_rowset_id rs, seg, end_v) input"
  have step: "co_missed_rows
                 (foldl (\<lambda>out entry.
                    foldl (convert_marked_row conv rs seg (snd (snd (fst entry)))) out (snd entry))
                  out ?es) = Some (m \<union> (\<Union>e \<in> set ?es. ?S e))"
    by (rule foldl_accumulates_union [where g = co_missed_rows, OF _ assms])
       (rule convert_rows_missed)
  have "(\<Union>e \<in> set ?es. ?S e) =
          {src. rowset_id src = rs_rowset_id rs \<and> segment_id src = seg \<and>
                    (\<exists>v. start_v \<le> v \<and> v < end_v \<and>
                         contains input (rs_rowset_id rs, seg, v) (row_id src)) \<and>
                    conv src = None}" (is "?L = ?R")
  proof (intro set_eqI iffI)
    fix src assume "src \<in> ?L"
    then obtain e row where e: "e \<in> set input"
      and rng: "in_range (rs_rowset_id rs, seg, start_v) (rs_rowset_id rs, seg, end_v) (fst e)"
      and row: "row \<in> set (snd e)"
      and src: "src = \<lparr>rowset_id = rs_rowset_id rs, segment_id = seg, row_id = row\<rparr>"
      and none: "conv src = None"
      by (auto simp: subset_def)
    obtain rid' seg' v where fe: "fst e = (rid', seg', v)"
      by (cases "fst e")
    from rng fe have eq: "rid' = rs_rowset_id rs" "seg' = seg"
      and v: "start_v \<le> v" "v < end_v"
      by (auto simp: in_range_versions)
    have "contains input (rs_rowset_id rs, seg, v) row"
      using e row fe eq by (auto simp: contains_iff_entry)
    then show "src \<in> ?R" using v src none by auto
  next
    fix src assume "src \<in> ?R"
    then obtain v where f: "rowset_id src = rs_rowset_id rs" "segment_id src = seg"
      and v: "start_v \<le> v" "v < end_v"
      and c: "contains input (rs_rowset_id rs, seg, v) (row_id src)"
      and none: "conv src = None"
      by auto
    from c obtain e where e: "e \<in> set input" "fst e = (rs_rowset_id rs, seg, v)"
      "row_id src \<in> set (snd e)"
      by (auto simp: contains_iff_entry)
    have es: "e \<in> set ?es"
      using e v by (auto simp: subset_def in_range_versions)
    have "src = \<lparr>rowset_id = rs_rowset_id rs, segment_id = seg, row_id = row_id src\<rparr>"
      using f by simp
    then have "src \<in> ?S e"
      using e(3) none by force
    then show "src \<in> ?L" using es by blast
  qed
  then show ?thesis
    using step by (simp add: convert_segment_def Let_def)
qed

text \<open>
  C6 (as amended). \<^verbatim>\<open>calc_compaction_output_rowset_delete_bitmap\<close> re-expresses on the
  output rowset the delete marks of the segments of the input rowsets whose version is at
  least the start version and below the end version: the output delete bitmap gains
  exactly the entries (destination rowset, destination segment, same version) with the
  destination row id, for the marked source rows of these versions that the conversion
  table maps; every marked source row of these versions without destination enters the
  set of missed rows, and nothing else does. The function returns no status.
\<close>

theorem compaction_marks_migrated:
  "(\<forall>k r. contains (co_output_rowset_delete_bitmap
                     (calc_compaction_output_rowset_delete_bitmap input_rowsets conv
                        start_v end_v input out)) k r \<longleftrightarrow>
            contains (co_output_rowset_delete_bitmap out) k r \<or>
            (\<exists>src v dst. marked_source input_rowsets input src v \<and>
                start_v \<le> v \<and> v < end_v \<and> conv src = Some dst \<and>
                k = (rowset_id dst, segment_id dst, v) \<and> r = row_id dst)) \<and>
   (\<forall>m. co_missed_rows out = Some m \<longrightarrow>
      co_missed_rows (calc_compaction_output_rowset_delete_bitmap input_rowsets conv
                        start_v end_v input out) =
        Some (m \<union> {src. (\<exists>v. marked_source input_rowsets input src v \<and>
                              start_v \<le> v \<and> v < end_v) \<and>
                         conv src = None}))"
proof (intro conjI allI impI)
  fix k r
  let ?Qseg = "\<lambda>rs seg. \<exists>v row dst.
        start_v \<le> v \<and> v < end_v \<and>
        contains input (rs_rowset_id rs, seg, v) row \<and>
        conv \<lparr>rowset_id = rs_rowset_id rs, segment_id = seg, row_id = row\<rparr> = Some dst \<and>
        k = (rowset_id dst, segment_id dst, v) \<and> r = row_id dst"
  have seg: "contains (co_output_rowset_delete_bitmap
                 (foldl (convert_segment conv start_v end_v input rs) out' segs)) k r \<longleftrightarrow>
             contains (co_output_rowset_delete_bitmap out') k r \<or> (\<exists>seg \<in> set segs. ?Qseg rs seg)"
    for rs out' segs
    by (rule foldl_accumulates_or) (rule convert_segment_output)
  have "contains (co_output_rowset_delete_bitmap
                 (foldl (\<lambda>out rs. foldl (convert_segment conv start_v end_v input rs) out
                                     [0..<num_segments rs]) out input_rowsets)) k r \<longleftrightarrow>
        contains (co_output_rowset_delete_bitmap out) k r \<or>
        (\<exists>rs \<in> set input_rowsets. \<exists>seg \<in> set [0..<num_segments rs]. ?Qseg rs seg)"
    by (rule foldl_accumulates_or) (rule seg)
  moreover have "(\<exists>rs \<in> set input_rowsets. \<exists>seg \<in> set [0..<num_segments rs]. ?Qseg rs seg) \<longleftrightarrow>
        (\<exists>src v dst. marked_source input_rowsets input src v \<and>
                start_v \<le> v \<and> v < end_v \<and> conv src = Some dst \<and>
                k = (rowset_id dst, segment_id dst, v) \<and> r = row_id dst)" (is "?L \<longleftrightarrow> ?R")
  proof
    assume ?L
    then obtain rs seg v row dst where a: "rs \<in> set input_rowsets" "seg < num_segments rs"
        "start_v \<le> v" "v < end_v"
        "contains input (rs_rowset_id rs, seg, v) row"
        "conv \<lparr>rowset_id = rs_rowset_id rs, segment_id = seg, row_id = row\<rparr> = Some dst"
        "k = (rowset_id dst, segment_id dst, v)" "r = row_id dst"
      by auto
    let ?src = "\<lparr>rowset_id = rs_rowset_id rs, segment_id = seg, row_id = row\<rparr>"
    have "marked_source input_rowsets input ?src v"
      using a by (auto simp: marked_source_def)
    then show ?R using a by blast
  next
    assume ?R
    then obtain src v dst where m: "marked_source input_rowsets input src v"
      and v: "start_v \<le> v" "v < end_v"
      and d: "conv src = Some dst" "k = (rowset_id dst, segment_id dst, v)" "r = row_id dst"
      by auto
    from m obtain rs where rs: "rs \<in> set input_rowsets" "rowset_id src = rs_rowset_id rs"
        "segment_id src < num_segments rs"
      and c: "contains input (rowset_id src, segment_id src, v) (row_id src)"
      by (auto simp: marked_source_def)
    have src: "\<lparr>rowset_id = rs_rowset_id rs, segment_id = segment_id src,
                 row_id = row_id src\<rparr> = src"
      using rs(2) by simp
    have conv: "conv \<lparr>rowset_id = rs_rowset_id rs, segment_id = segment_id src,
                      row_id = row_id src\<rparr> = Some dst"
      unfolding src by (rule d(1))
    have c': "contains input (rs_rowset_id rs, segment_id src, v) (row_id src)"
      using c rs(2) by simp
    have "?Qseg rs (segment_id src)"
      using v c' conv d(2,3) by blast
    moreover have "segment_id src \<in> set [0..<num_segments rs]"
      using rs(3) by simp
    ultimately show ?L using rs(1) by blast
  qed
  ultimately show "contains (co_output_rowset_delete_bitmap
                     (calc_compaction_output_rowset_delete_bitmap input_rowsets conv
                        start_v end_v input out)) k r \<longleftrightarrow>
            contains (co_output_rowset_delete_bitmap out) k r \<or>
            (\<exists>src v dst. marked_source input_rowsets input src v \<and>
                start_v \<le> v \<and> v < end_v \<and> conv src = Some dst \<and>
                k = (rowset_id dst, segment_id dst, v) \<and> r = row_id dst)"
    by (simp add: calc_compaction_output_rowset_delete_bitmap_def)
next
  fix m
  assume m: "co_missed_rows out = Some m"
  let ?Sseg = "\<lambda>rs seg. {src. rowset_id src = rs_rowset_id rs \<and> segment_id src = seg \<and>
                    (\<exists>v. start_v \<le> v \<and> v < end_v \<and>
                         contains input (rs_rowset_id rs, seg, v) (row_id src)) \<and>
                    conv src = None}"
  have seg: "co_missed_rows out' = Some m' \<Longrightarrow>
             co_missed_rows (foldl (convert_segment conv start_v end_v input rs) out' segs) =
               Some (m' \<union> (\<Union>seg \<in> set segs. ?Sseg rs seg))"
    for rs out' segs m'
    by (rule foldl_accumulates_union [where g = co_missed_rows])
       (rule convert_segment_missed)
  have "co_missed_rows
          (foldl (\<lambda>out rs. foldl (convert_segment conv start_v end_v input rs) out
                              [0..<num_segments rs]) out input_rowsets) =
        Some (m \<union> (\<Union>rs \<in> set input_rowsets. \<Union>seg \<in> set [0..<num_segments rs]. ?Sseg rs seg))"
    by (rule foldl_accumulates_union [where g = co_missed_rows, OF _ m]) (rule seg)
  moreover have "(\<Union>rs \<in> set input_rowsets. \<Union>seg \<in> set [0..<num_segments rs]. ?Sseg rs seg) =
        {src. (\<exists>v. marked_source input_rowsets input src v \<and> start_v \<le> v \<and> v < end_v) \<and>
              conv src = None}"
    by (auto simp: marked_source_def; blast)
  ultimately show "co_missed_rows (calc_compaction_output_rowset_delete_bitmap input_rowsets conv
                        start_v end_v input out) =
        Some (m \<union> {src. (\<exists>v. marked_source input_rowsets input src v \<and>
                              start_v \<le> v \<and> v < end_v) \<and>
                         conv src = None})"
    by (simp add: calc_compaction_output_rowset_delete_bitmap_def)
qed

theorem compaction_marks_migrated_witness:
  "contains (co_output_rowset_delete_bitmap
               (calc_compaction_output_rowset_delete_bitmap [base_rowset]
                  example_conversion 0 5 compaction_input_bitmap example_output))
     (8, 0, 2) 5 \<and>
   unmapped_source \<in> the (co_missed_rows
               (calc_compaction_output_rowset_delete_bitmap [base_rowset]
                  example_conversion 0 5 compaction_input_bitmap example_output))"
proof -
  note t = compaction_marks_migrated
             [of "[base_rowset]" example_conversion 0 5 compaction_input_bitmap
                 example_output]
  have m1: "marked_source [base_rowset] compaction_input_bitmap mapped_source 2"
    by (simp add: marked_source_def mapped_source_def base_rowset_def example_rowset_def
         compaction_input_bitmap_def)
  have c1: "example_conversion mapped_source
              = Some \<lparr>rowset_id = 8, segment_id = 0, row_id = 5\<rparr>"
    by (simp add: example_conversion_def mapped_source_def)
  have "\<exists>src v dst. marked_source [base_rowset] compaction_input_bitmap src v \<and>
          0 \<le> v \<and> v < 5 \<and> example_conversion src = Some dst \<and>
          (8, 0, 2) = (rowset_id dst, segment_id dst, v) \<and> (5::nat) = row_id dst"
    using m1 c1 by (intro exI [of _ mapped_source] exI [of _ 2]
                      exI [of _ "\<lparr>rowset_id = 8, segment_id = 0, row_id = 5\<rparr>"]) simp
  then have a: "contains (co_output_rowset_delete_bitmap
               (calc_compaction_output_rowset_delete_bitmap [base_rowset]
                  example_conversion 0 5 compaction_input_bitmap example_output))
              (8, 0, 2) 5"
    using t [THEN conjunct1, rule_format, of "(8, 0, 2)" 5] by blast
  have m2: "marked_source [base_rowset] compaction_input_bitmap unmapped_source 2"
    by (simp add: marked_source_def unmapped_source_def base_rowset_def example_rowset_def
         compaction_input_bitmap_def)
  have c2: "example_conversion unmapped_source = None"
    by (simp add: example_conversion_def unmapped_source_def)
  have "co_missed_rows example_output = Some {}"
    by (simp add: example_output_def)
  from t [THEN conjunct2, rule_format, OF this] m2 c2
  have b: "unmapped_source \<in> the (co_missed_rows
               (calc_compaction_output_rowset_delete_bitmap [base_rowset]
                  example_conversion 0 5 compaction_input_bitmap example_output))"
    by auto
  show ?thesis using a b by simp
qed

text \<open>
  The mark at the end version itself is not re-expressed: with the range from 0 to 2 the
  row 3 of segment 0 of the input rowset, marked at version 2 and mapped by the conversion
  table to row 5 of the output rowset, leaves the output delete bitmap empty.
\<close>

theorem compaction_end_version_counterexample:
  "marked_source [base_rowset] compaction_input_bitmap mapped_source 2 \<and>
   example_conversion mapped_source = Some \<lparr>rowset_id = 8, segment_id = 0, row_id = 5\<rparr> \<and>
   \<not> contains (co_output_rowset_delete_bitmap
                 (calc_compaction_output_rowset_delete_bitmap [base_rowset]
                    example_conversion 0 2 compaction_input_bitmap example_output))
         (8, 0, 2) 5 \<and>
   co_output_rowset_delete_bitmap
     (calc_compaction_output_rowset_delete_bitmap [base_rowset]
        example_conversion 0 2 compaction_input_bitmap example_output) = []"
  by (simp add: marked_source_def mapped_source_def base_rowset_def example_rowset_def
       compaction_input_bitmap_def example_conversion_def example_output_def
       calc_compaction_output_rowset_delete_bitmap_def convert_segment_def subset_def
       in_range_def key_le_def key_less_def)

section \<open>Result of the row id conversion check\<close>

lemma checked_pairs_Nil: "checked_pairs env r [] = []"
  by (simp add: checked_pairs_def)

lemma checked_pairs_Cons:
  "checked_pairs env r (p # locations) =
     (if fst (src_read env r p) = Error NOT_IMPLEMENTED_ERROR then []
      else p # checked_pairs env r locations)"
  by (simp add: checked_pairs_def)

lemma check_locations_Cons:
  "check_locations env d r (p # locations) log =
     (if fst (src_read env r p) = Error NOT_IMPLEMENTED_ERROR then (OK, log)
      else if fst (src_read env r p) \<noteq> OK then (fst (src_read env r p), log)
      else if fst (dst_read env d p) \<noteq> OK then (fst (dst_read env d p), log)
      else if snd (src_read env r p) \<noteq> snd (dst_read env d p)
      then (Error INTERNAL_ERROR,
            log @ [(fst p, snd p, snd (src_read env r p), snd (dst_read env d p))])
      else check_locations env d r locations
             (log @ [(fst p, snd p, snd (src_read env r p), snd (dst_read env d p))]))"
  by (cases p) (simp add: src_read_def dst_read_def split: prod.splits)

lemma check_locations_passes:
  "\<forall>p \<in> set (checked_pairs env r locations). pair_verified_equal env d r p \<Longrightarrow>
   fst (check_locations env d r locations log) = OK"
proof (induction locations arbitrary: log)
  case Nil
  then show ?case by simp
next
  case (Cons p locations)
  show ?case
  proof (cases "fst (src_read env r p) = Error NOT_IMPLEMENTED_ERROR")
    case True
    then show ?thesis by (simp add: check_locations_Cons)
  next
    case False
    then have "pair_verified_equal env d r p"
      and "\<forall>q \<in> set (checked_pairs env r locations). pair_verified_equal env d r q"
      using Cons.prems by (simp_all add: checked_pairs_Cons)
    then show ?thesis
      using Cons.IH by (simp add: check_locations_Cons pair_verified_equal_def)
  qed
qed

lemma check_locations_first_failure:
  assumes "checked_pairs env r locations = lpre @ p # lpost"
    and "\<forall>q \<in> set lpre. pair_verified_equal env d r q"
    and "\<not> pair_verified_equal env d r p"
  shows "fst (check_locations env d r locations log) =
     (if fst (src_read env r p) \<noteq> OK then fst (src_read env r p)
      else if fst (dst_read env d p) \<noteq> OK then fst (dst_read env d p)
      else Error INTERNAL_ERROR)"
  using assms(1,2)
proof (induction lpre arbitrary: locations log)
  case Nil
  then obtain rest where l: "locations = p # rest"
    and ni: "fst (src_read env r p) \<noteq> Error NOT_IMPLEMENTED_ERROR"
    by (cases locations) (auto simp: checked_pairs_Nil checked_pairs_Cons split: if_splits)
  show ?case
    using ni assms(3) by (simp add: l check_locations_Cons pair_verified_equal_def)
next
  case (Cons q lpre)
  then obtain rest where l: "locations = q # rest"
    and ni: "fst (src_read env r q) \<noteq> Error NOT_IMPLEMENTED_ERROR"
    and rest: "checked_pairs env r rest = lpre @ p # lpost"
    by (cases locations) (auto simp: checked_pairs_Nil checked_pairs_Cons split: if_splits)
  have q: "pair_verified_equal env d r q" and pre: "\<forall>x \<in> set lpre. pair_verified_equal env d r x"
    using Cons.prems(2) by simp_all
  show ?case
    using ni q Cons.IH [OF rest pre]
    by (simp add: l check_locations_Cons pair_verified_equal_def)
qed

lemma check_location_map_Cons:
  "check_location_map env d (e # location_map) log =
     (if load_segments env (rs_rowset_id (fst e)) \<noteq> OK
      then (load_segments env (rs_rowset_id (fst e)), log)
      else if fst (check_locations env d (fst e) (snd e) log) \<noteq> OK
      then check_locations env d (fst e) (snd e) log
      else check_location_map env d location_map
             (snd (check_locations env d (fst e) (snd e) log)))"
  by (cases e) (simp split: prod.splits)

lemma check_location_map_passes:
  "\<forall>e \<in> set location_map. entry_passes env d e \<Longrightarrow>
   fst (check_location_map env d location_map log) = OK"
proof (induction location_map arbitrary: log)
  case Nil
  then show ?case by simp
next
  case (Cons e location_map)
  obtain r locations where e: "e = (r, locations)" by (cases e)
  have load: "load_segments env (rs_rowset_id r) = OK"
    and "\<forall>p \<in> set (checked_pairs env r locations). pair_verified_equal env d r p"
    using Cons.prems e by (simp_all add: entry_passes_def)
  then have "fst (check_locations env d r locations log) = OK"
    by (simp add: check_locations_passes)
  then show ?case
    using load e Cons.IH Cons.prems by (simp add: check_location_map_Cons)
qed

lemma check_location_map_prefix:
  "\<forall>e \<in> set pre. entry_passes env d e \<Longrightarrow>
   \<exists>log'. check_location_map env d (pre @ rest) log = check_location_map env d rest log'"
proof (induction pre arbitrary: log)
  case Nil
  then show ?case by auto
next
  case (Cons e pre)
  obtain r locations where e: "e = (r, locations)" by (cases e)
  have load: "load_segments env (rs_rowset_id r) = OK"
    and "\<forall>p \<in> set (checked_pairs env r locations). pair_verified_equal env d r p"
    using Cons.prems e by (simp_all add: entry_passes_def)
  then have ok: "fst (check_locations env d r locations log) = OK"
    by (simp add: check_locations_passes)
  have "\<forall>x \<in> set pre. entry_passes env d x"
    using Cons.prems by simp
  from Cons.IH [OF this, of "snd (check_locations env d r locations log)"]
  show ?case
    using load ok e by (simp add: check_location_map_Cons)
qed

lemma check_location_map_load_failure:
  assumes "\<forall>x \<in> set pre. entry_passes env d x"
    and "load_segments env (rs_rowset_id (fst e)) \<noteq> OK"
  shows "fst (check_location_map env d (pre @ e # post) log)
           = load_segments env (rs_rowset_id (fst e))"
proof -
  obtain log' where "check_location_map env d (pre @ e # post) log
                       = check_location_map env d (e # post) log'"
    using check_location_map_prefix [OF assms(1)] by blast
  then show ?thesis
    using assms(2) by (simp add: check_location_map_Cons)
qed

lemma check_location_map_pair_failure:
  assumes "\<forall>x \<in> set pre. entry_passes env d x"
    and "load_segments env (rs_rowset_id (fst e)) = OK"
    and "checked_pairs env (fst e) (snd e) = lpre @ p # lpost"
    and "\<forall>q \<in> set lpre. pair_verified_equal env d (fst e) q"
    and "\<not> pair_verified_equal env d (fst e) p"
  shows "fst (check_location_map env d (pre @ e # post) log) =
     (if fst (src_read env (fst e) p) \<noteq> OK then fst (src_read env (fst e) p)
      else if fst (dst_read env d p) \<noteq> OK then fst (dst_read env d p)
      else Error INTERNAL_ERROR)"
proof -
  obtain log' where eq: "check_location_map env d (pre @ e # post) log
                       = check_location_map env d (e # post) log'"
    using check_location_map_prefix [OF assms(1)] by blast
  obtain r locations where e: "e = (r, locations)" by (cases e)
  have f: "fst (check_locations env d r locations log') =
     (if fst (src_read env r p) \<noteq> OK then fst (src_read env r p)
      else if fst (dst_read env d p) \<noteq> OK then fst (dst_read env d p)
      else Error INTERNAL_ERROR)"
    using check_locations_first_failure [of env r locations lpre p lpost d log'] assms(3,4,5) e
    by simp
  then have "fst (check_locations env d r locations log') \<noteq> OK"
    by (auto split: if_splits)
  then show ?thesis
    unfolding eq using assms(2) e f by (simp add: check_location_map_Cons)
qed

lemma first_failing_entry:
  assumes "\<not> (\<forall>e \<in> set location_map. entry_passes env d e)"
  shows "\<exists>pre e post. location_map = pre @ e # post \<and> (\<forall>x \<in> set pre. entry_passes env d x) \<and>
           \<not> entry_passes env d e"
  using assms split_list_first_prop [of location_map "\<lambda>e. \<not> entry_passes env d e"]
  by auto

lemma first_failing_pair:
  assumes "\<not> (\<forall>p \<in> set pairs. pair_verified_equal env d r p)"
  shows "\<exists>lpre p lpost. pairs = lpre @ p # lpost \<and>
           (\<forall>q \<in> set lpre. pair_verified_equal env d r q) \<and> \<not> pair_verified_equal env d r p"
  using assms split_list_first_prop [of pairs "\<lambda>p. \<not> pair_verified_equal env d r p"]
  by auto

lemma check_location_map_io_succeeds:
  assumes "io_succeeds env d location_map"
  shows "fst (check_location_map env d location_map log) =
     (if \<forall>e \<in> set location_map. \<forall>p \<in> set (checked_pairs env (fst e) (snd e)).
            snd (src_read env (fst e) p) = snd (dst_read env d p)
      then OK else Error INTERNAL_ERROR)"
proof -
  have pass_iff: "entry_passes env d e \<longleftrightarrow>
          (\<forall>p \<in> set (checked_pairs env (fst e) (snd e)).
             snd (src_read env (fst e) p) = snd (dst_read env d p))"
    if "e \<in> set location_map" for e
    using assms that by (auto simp: io_succeeds_def entry_passes_def pair_verified_equal_def)
  show ?thesis
  proof (cases "\<forall>e \<in> set location_map. entry_passes env d e")
    case True
    then show ?thesis
      using pass_iff by (simp add: check_location_map_passes)
  next
    case False
    then obtain pre e post where lm: "location_map = pre @ e # post"
      and pre: "\<forall>x \<in> set pre. entry_passes env d x" and e: "\<not> entry_passes env d e"
      using first_failing_entry by blast
    have mem: "e \<in> set location_map" using lm by simp
    have load: "load_segments env (rs_rowset_id (fst e)) = OK"
      using assms mem by (simp add: io_succeeds_def)
    then have "\<not> (\<forall>p \<in> set (checked_pairs env (fst e) (snd e)).
                    pair_verified_equal env d (fst e) p)"
      using e by (simp add: entry_passes_def)
    then obtain lpre p lpost where cp: "checked_pairs env (fst e) (snd e) = lpre @ p # lpost"
      and lpre: "\<forall>q \<in> set lpre. pair_verified_equal env d (fst e) q"
      and p: "\<not> pair_verified_equal env d (fst e) p"
      using first_failing_pair by blast
    have "p \<in> set (checked_pairs env (fst e) (snd e))" using cp by simp
    then have io: "fst (src_read env (fst e) p) = OK" "fst (dst_read env d p) = OK"
      using assms mem by (auto simp: io_succeeds_def)
    have "fst (check_location_map env d location_map log) = Error INTERNAL_ERROR"
      unfolding lm
      using check_location_map_pair_failure [OF pre load cp lpre p, of post log] io by simp
    moreover have "\<not> (\<forall>e \<in> set location_map. \<forall>p \<in> set (checked_pairs env (fst e) (snd e)).
            snd (src_read env (fst e) p) = snd (dst_read env d p))"
      using False pass_iff by blast
    ultimately show ?thesis by simp
  qed
qed

text \<open>
  C7 (as amended). \<^verbatim>\<open>check_rowid_conversion\<close> returns OK when the location map is empty.
  For a location map with entries it loads the segments of the destination rowset and
  then, entry by entry, the segments of the input rowset, and reads for each pair the key
  at the source and at the destination row id; the pairs of an entry from the first one
  whose source key cannot be read by row id are not subject to the check. It returns OK
  when every load succeeds and every pair subject to the check is read with equal keys.
  Otherwise it returns the status of the first step that fails: a failing load or key
  read is returned as it is, and a pair read with different keys gives an internal error.
  So when all loads and reads succeed the result is OK exactly when all pairs subject to
  the check have equal keys, and an internal error otherwise.
\<close>

theorem check_rowid_conversion_result:
  "(location_map = [] \<longrightarrow> fst (check_rowid_conversion env dst_rowset location_map) = OK) \<and>
   (location_map \<noteq> [] \<and> load_segments env (rs_rowset_id dst_rowset) \<noteq> OK \<longrightarrow>
      fst (check_rowid_conversion env dst_rowset location_map)
        = load_segments env (rs_rowset_id dst_rowset)) \<and>
   (load_segments env (rs_rowset_id dst_rowset) = OK \<and>
    (\<forall>e \<in> set location_map. entry_passes env dst_rowset e) \<longrightarrow>
      fst (check_rowid_conversion env dst_rowset location_map) = OK) \<and>
   (load_segments env (rs_rowset_id dst_rowset) = OK \<and>
    location_map = pre @ e # post \<and> (\<forall>x \<in> set pre. entry_passes env dst_rowset x) \<and>
    load_segments env (rs_rowset_id (fst e)) \<noteq> OK \<longrightarrow>
      fst (check_rowid_conversion env dst_rowset location_map)
        = load_segments env (rs_rowset_id (fst e))) \<and>
   (load_segments env (rs_rowset_id dst_rowset) = OK \<and>
    location_map = pre @ e # post \<and> (\<forall>x \<in> set pre. entry_passes env dst_rowset x) \<and>
    load_segments env (rs_rowset_id (fst e)) = OK \<and>
    checked_pairs env (fst e) (snd e) = lpre @ p # lpost \<and>
    (\<forall>q \<in> set lpre. pair_verified_equal env dst_rowset (fst e) q) \<longrightarrow>
      (fst (src_read env (fst e) p) \<noteq> OK \<longrightarrow>
         fst (check_rowid_conversion env dst_rowset location_map)
           = fst (src_read env (fst e) p)) \<and>
      (fst (src_read env (fst e) p) = OK \<and> fst (dst_read env dst_rowset p) \<noteq> OK \<longrightarrow>
         fst (check_rowid_conversion env dst_rowset location_map)
           = fst (dst_read env dst_rowset p)) \<and>
      (fst (src_read env (fst e) p) = OK \<and> fst (dst_read env dst_rowset p) = OK \<and>
       snd (src_read env (fst e) p) \<noteq> snd (dst_read env dst_rowset p) \<longrightarrow>
         fst (check_rowid_conversion env dst_rowset location_map) = Error INTERNAL_ERROR)) \<and>
   (io_succeeds env dst_rowset location_map \<longrightarrow>
      fst (check_rowid_conversion env dst_rowset location_map) =
        (if \<forall>e \<in> set location_map. \<forall>p \<in> set (checked_pairs env (fst e) (snd e)).
               snd (src_read env (fst e) p) = snd (dst_read env dst_rowset p)
         then OK else Error INTERNAL_ERROR))"
proof -
  let ?r = "fst (check_rowid_conversion env dst_rowset location_map)"
  have map: "?r = fst (check_location_map env dst_rowset location_map [])"
    if "load_segments env (rs_rowset_id dst_rowset) = OK"
    using that by (simp add: check_rowid_conversion_def)
  have a: "location_map = [] \<longrightarrow> ?r = OK"
    by (simp add: check_rowid_conversion_def)
  have b: "location_map \<noteq> [] \<and> load_segments env (rs_rowset_id dst_rowset) \<noteq> OK \<longrightarrow>
      ?r = load_segments env (rs_rowset_id dst_rowset)"
    by (simp add: check_rowid_conversion_def)
  have c: "load_segments env (rs_rowset_id dst_rowset) = OK \<and>
    (\<forall>e \<in> set location_map. entry_passes env dst_rowset e) \<longrightarrow> ?r = OK"
    using map by (simp add: check_location_map_passes)
  have d: "load_segments env (rs_rowset_id dst_rowset) = OK \<and>
    location_map = pre @ e # post \<and> (\<forall>x \<in> set pre. entry_passes env dst_rowset x) \<and>
    load_segments env (rs_rowset_id (fst e)) \<noteq> OK \<longrightarrow>
      ?r = load_segments env (rs_rowset_id (fst e))"
    using map check_location_map_load_failure [of pre env dst_rowset e post "[]"] by auto
  have e: "load_segments env (rs_rowset_id dst_rowset) = OK \<and>
    location_map = pre @ e # post \<and> (\<forall>x \<in> set pre. entry_passes env dst_rowset x) \<and>
    load_segments env (rs_rowset_id (fst e)) = OK \<and>
    checked_pairs env (fst e) (snd e) = lpre @ p # lpost \<and>
    (\<forall>q \<in> set lpre. pair_verified_equal env dst_rowset (fst e) q) \<longrightarrow>
      (fst (src_read env (fst e) p) \<noteq> OK \<longrightarrow> ?r = fst (src_read env (fst e) p)) \<and>
      (fst (src_read env (fst e) p) = OK \<and> fst (dst_read env dst_rowset p) \<noteq> OK \<longrightarrow>
         ?r = fst (dst_read env dst_rowset p)) \<and>
      (fst (src_read env (fst e) p) = OK \<and> fst (dst_read env dst_rowset p) = OK \<and>
       snd (src_read env (fst e) p) \<noteq> snd (dst_read env dst_rowset p) \<longrightarrow>
         ?r = Error INTERNAL_ERROR)"
  proof (intro impI, elim conjE)
    assume h: "load_segments env (rs_rowset_id dst_rowset) = OK"
      "location_map = pre @ e # post" "\<forall>x \<in> set pre. entry_passes env dst_rowset x"
      "load_segments env (rs_rowset_id (fst e)) = OK"
      "checked_pairs env (fst e) (snd e) = lpre @ p # lpost"
      "\<forall>q \<in> set lpre. pair_verified_equal env dst_rowset (fst e) q"
    have f: "\<not> pair_verified_equal env dst_rowset (fst e) p \<Longrightarrow> ?r =
       (if fst (src_read env (fst e) p) \<noteq> OK then fst (src_read env (fst e) p)
        else if fst (dst_read env dst_rowset p) \<noteq> OK then fst (dst_read env dst_rowset p)
        else Error INTERNAL_ERROR)"
      using map [OF h(1)] check_location_map_pair_failure [OF h(3,4,5,6), of post "[]"] h(2)
      by simp
    show "(fst (src_read env (fst e) p) \<noteq> OK \<longrightarrow> ?r = fst (src_read env (fst e) p)) \<and>
      (fst (src_read env (fst e) p) = OK \<and> fst (dst_read env dst_rowset p) \<noteq> OK \<longrightarrow>
         ?r = fst (dst_read env dst_rowset p)) \<and>
      (fst (src_read env (fst e) p) = OK \<and> fst (dst_read env dst_rowset p) = OK \<and>
       snd (src_read env (fst e) p) \<noteq> snd (dst_read env dst_rowset p) \<longrightarrow>
         ?r = Error INTERNAL_ERROR)"
      using f by (auto simp: pair_verified_equal_def)
  qed
  have f: "io_succeeds env dst_rowset location_map \<longrightarrow>
      ?r = (if \<forall>e \<in> set location_map. \<forall>p \<in> set (checked_pairs env (fst e) (snd e)).
               snd (src_read env (fst e) p) = snd (dst_read env dst_rowset p)
            then OK else Error INTERNAL_ERROR)"
  proof
    assume io: "io_succeeds env dst_rowset location_map"
    then have "load_segments env (rs_rowset_id dst_rowset) = OK"
      by (simp add: io_succeeds_def)
    from map [OF this] check_location_map_io_succeeds [OF io, of "[]"]
    show "?r = (if \<forall>e \<in> set location_map. \<forall>p \<in> set (checked_pairs env (fst e) (snd e)).
               snd (src_read env (fst e) p) = snd (dst_read env dst_rowset p)
            then OK else Error INTERNAL_ERROR)"
      by simp
  qed
  show ?thesis
    using a b c d e f by (intro conjI)
qed

theorem check_rowid_conversion_result_witness:
  "fst (check_rowid_conversion example_env output_rowset example_location_map) = OK \<and>
   fst (check_rowid_conversion mismatch_env output_rowset example_location_map)
     = Error INTERNAL_ERROR \<and>
   fst (check_rowid_conversion unreadable_env output_rowset example_location_map)
     = Error IO_ERROR \<and>
   fst (check_rowid_conversion failing_env output_rowset example_location_map)
     = Error IO_ERROR"
proof -
  let ?e = "(base_rowset, [(mapped_source, \<lparr>rowset_id = 8, segment_id = 0, row_id = 5\<rparr>)])"
  let ?p = "(mapped_source, \<lparr>rowset_id = 8, segment_id = 0, row_id = 5\<rparr>)"
  have lm: "example_location_map = [] @ ?e # []"
    by (simp add: example_location_map_def)
  have ids: "rs_rowset_id output_rowset = 8" "rs_rowset_id base_rowset = 1"
    by (simp_all add: output_rowset_def base_rowset_def example_rowset_def)
  have io: "io_succeeds example_env output_rowset example_location_map"
    by (simp add: io_succeeds_def example_location_map_def example_env_def checked_pairs_def
         src_read_def dst_read_def)
  have t1: "fst (check_rowid_conversion example_env output_rowset example_location_map) = OK"
    using check_rowid_conversion_result
            [of example_location_map example_env output_rowset "[]" ?e "[]" "[]" ?p "[]",
             THEN conjunct2, THEN conjunct2, THEN conjunct2, THEN conjunct2, THEN conjunct2,
             THEN mp, OF io]
    by (simp add: example_location_map_def example_env_def checked_pairs_def
         src_read_def dst_read_def)
  have pre2: "load_segments mismatch_env (rs_rowset_id output_rowset) = OK \<and>
    example_location_map = [] @ ?e # [] \<and>
    (\<forall>x \<in> set []. entry_passes mismatch_env output_rowset x) \<and>
    load_segments mismatch_env (rs_rowset_id (fst ?e)) = OK \<and>
    checked_pairs mismatch_env (fst ?e) (snd ?e) = [] @ ?p # [] \<and>
    (\<forall>q \<in> set []. pair_verified_equal mismatch_env output_rowset (fst ?e) q)"
    by (simp add: lm mismatch_env_def example_env_def checked_pairs_def src_read_def)
  have t2: "fst (check_rowid_conversion mismatch_env output_rowset example_location_map)
              = Error INTERNAL_ERROR"
    using check_rowid_conversion_result
            [of example_location_map mismatch_env output_rowset "[]" ?e "[]" "[]" ?p "[]",
             THEN conjunct2, THEN conjunct2, THEN conjunct2, THEN conjunct2, THEN conjunct1,
             THEN mp, OF pre2, THEN conjunct2, THEN conjunct2]
    by (simp add: mismatch_env_def example_env_def src_read_def dst_read_def ids)
  have pre3: "load_segments unreadable_env (rs_rowset_id output_rowset) = OK \<and>
    example_location_map = [] @ ?e # [] \<and>
    (\<forall>x \<in> set []. entry_passes unreadable_env output_rowset x) \<and>
    load_segments unreadable_env (rs_rowset_id (fst ?e)) = OK \<and>
    checked_pairs unreadable_env (fst ?e) (snd ?e) = [] @ ?p # [] \<and>
    (\<forall>q \<in> set []. pair_verified_equal unreadable_env output_rowset (fst ?e) q)"
    by (simp add: lm unreadable_env_def example_env_def checked_pairs_def src_read_def ids)
  have t3: "fst (check_rowid_conversion unreadable_env output_rowset example_location_map)
              = Error IO_ERROR"
    using check_rowid_conversion_result
            [of example_location_map unreadable_env output_rowset "[]" ?e "[]" "[]" ?p "[]",
             THEN conjunct2, THEN conjunct2, THEN conjunct2, THEN conjunct2, THEN conjunct1,
             THEN mp, OF pre3, THEN conjunct2, THEN conjunct1]
    by (simp add: unreadable_env_def example_env_def src_read_def dst_read_def ids)
  have t4: "fst (check_rowid_conversion failing_env output_rowset example_location_map)
              = Error IO_ERROR"
    using check_rowid_conversion_result
            [of example_location_map failing_env output_rowset "[]" ?e "[]" "[]" ?p "[]",
             THEN conjunct2, THEN conjunct1]
    by (simp add: failing_env_def example_location_map_def)
  show ?thesis
    using t1 t2 t3 t4 by simp
qed

text \<open>
  A failing segment load is returned as it is: the location map has an entry, no pair is
  verified, and the result is the I/O error of the load.
\<close>

theorem check_rowid_conversion_load_counterexample:
  "example_location_map \<noteq> [] \<and>
   list_all keys_equal
     (snd (check_rowid_conversion failing_env output_rowset example_location_map)) \<and>
   fst (check_rowid_conversion failing_env output_rowset example_location_map)
     = Error IO_ERROR"
  by (simp add: check_rowid_conversion_def example_location_map_def failing_env_def)

end
